theory Spec2Isabelle
  imports Complex_Main
begin

section \<open>Variational inference on hidden states (inferactively/core/inference.py)\<close>

text \<open>
  A shallow embedding of \<^verbatim>\<open>update_posterior_states\<close>, \<^verbatim>\<open>run_FPI\<close> and
  \<^verbatim>\<open>run_FPI_faster\<close>. Numbers are exact reals: rounding, overflow and NaN of
  float64 are outside the model. A numpy array is a shape together with its entries,
  addressed by index lists; a one-dimensional array is a list of reals; an object array
  (array of arrays) is a list. Exceptions are values of type \<open>error\<close>.
\<close>

subsection \<open>Arrays\<close>

type_synonym vec = "real list"

record ndarray =
  shape :: "nat list"
  entry :: "nat list \<Rightarrow> real"

datatype error =
    NotImplementedError string
  | UnboundLocalError
  | IndexError
  | ValueError
  | TypeError
  | AttributeError

text \<open>\<^verbatim>\<open>np.ones(tuple(Ns))\<close>\<close>

definition np_ones :: "nat list \<Rightarrow> ndarray" where
  "np_ones Ns = \<lparr>shape = Ns, entry = (\<lambda>_. 1)\<rparr>"

text \<open>The entries of a one-dimensional array, as a vector.\<close>

definition vec_of :: "ndarray \<Rightarrow> vec" where
  "vec_of a = map (\<lambda>i. entry a [i]) [0..<shape a ! 0]"

text \<open>All index tuples of an array of the given shape, in row-major order.\<close>

definition indices :: "nat list \<Rightarrow> nat list list" where
  "indices Ns = product_lists (map (\<lambda>n. [0..<n]) Ns)"

text \<open>The numerical floor \<^verbatim>\<open>1e-16\<close> of the source.\<close>

definition eps16 :: real where
  "eps16 = 1 / 10 ^ 16"

text \<open>
  \<^verbatim>\<open>np.log(L + 1e-16)\<close>, elementwise, on a tensor and on a vector. At an argument
  that is not positive numpy gives nan or -inf with a warning and raises nothing; \<open>ln\<close>
  is total as well, but its value there is an unknown real and not nan. What is proved
  of the values of a posterior is therefore proved for likelihoods without negative
  entries only (\<open>nonneg_likelihood\<close>).
\<close>

definition log_floor :: "ndarray \<Rightarrow> ndarray" where
  "log_floor L = L\<lparr>entry := (\<lambda>idx. ln (entry L idx + eps16))\<rparr>"

definition vlog_floor :: "vec \<Rightarrow> vec" where
  "vlog_floor v = map (\<lambda>x. ln (x + eps16)) v"

text \<open>
  \<^verbatim>\<open>L *= R\<close>: the in-place product keeps the shape of \<open>L\<close>, and numpy raises
  ValueError unless \<open>R\<close> can be broadcast to that shape: read from the last axis,
  every axis of \<open>R\<close> has the length of the axis of \<open>L\<close> or the length one, and
  \<open>R\<close> has no more axes than \<open>L\<close>.
\<close>

fun broadcast_to :: "nat list \<Rightarrow> nat list \<Rightarrow> bool" where
  "broadcast_to [] ls = True"
| "broadcast_to (r # rs) [] = False"
| "broadcast_to (r # rs) (l # ls) = ((r = l \<or> r = 1) \<and> broadcast_to rs ls)"

definition bcast_idx :: "nat list \<Rightarrow> nat list \<Rightarrow> nat list" where
  "bcast_idx rshape idx =
     map2 (\<lambda>r i. if r = 1 then 0 else i) rshape (drop (length idx - length rshape) idx)"

definition mul_inplace :: "ndarray \<Rightarrow> ndarray \<Rightarrow> error + ndarray" where
  "mul_inplace L R =
     (if broadcast_to (rev (shape R)) (rev (shape L)) then
        Inr (L\<lparr>entry := (\<lambda>idx. entry L idx * entry R (bcast_idx (shape R) idx))\<rparr>)
      else Inl ValueError)"

text \<open>\<^verbatim>\<open>a + b\<close> on two vectors of one length, and \<^verbatim>\<open>a.dot(b[:, np.newaxis])\<close>.\<close>

definition vadd :: "vec \<Rightarrow> vec \<Rightarrow> vec" where
  "vadd a b = map2 (+) a b"

definition dot :: "vec \<Rightarrow> vec \<Rightarrow> real" where
  "dot a b = sum_list (map2 (*) a b)"

text \<open>The same product with numpy's check that the two lengths agree.\<close>

definition np_dot :: "vec \<Rightarrow> vec \<Rightarrow> error + real" where
  "np_dot a b = (if length a = length b then Inr (dot a b) else Inl ValueError)"

subsection \<open>The helpers imported from inferactively.core\<close>

text \<open>
  Modelled from the spec: \<^verbatim>\<open>softmax\<close> is imported from \<^verbatim>\<open>inferactively.core\<close>, which
  is not among the sources. The spec: it maps a real-valued vector to a normalized
  probability vector, by shifting in the log domain and normalizing.
\<close>

definition softmax :: "vec \<Rightarrow> vec" where
  "softmax v =
     (let m = fold max v (hd v);
          e = map (\<lambda>x. exp (x - m)) v
      in map (\<lambda>x. x / sum_list e) e)"

text \<open>
  Modelled from the spec: \<^verbatim>\<open>spm_dot\<close> is imported from \<^verbatim>\<open>inferactively.core\<close>, which
  is not among the sources. The spec: given a tensor and per-axis weight vectors it
  returns the tensor with the specified axes summed out, each weighted by its vector; in
  observation mode it contracts the leading axis against one one-hot vector. The source
  calls it in three ways, which are three functions here:
  \<^verbatim>\<open>spm_dot(A, o, obs_mode=True)\<close>, \<^verbatim>\<open>spm_dot(L, qx, [f])\<close> (every axis but \<open>f\<close> summed
  out) and \<^verbatim>\<open>spm_dot(L, qx)\<close> (every axis summed out, a one-element array).
\<close>

definition spm_dot_obs :: "ndarray \<Rightarrow> vec \<Rightarrow> ndarray" where
  "spm_dot_obs A x =
     \<lparr>shape = tl (shape A),
      entry = (\<lambda>idx. \<Sum>k\<leftarrow>[0..<length x]. entry A (k # idx) * x ! k)\<rparr>"

definition weight :: "vec list \<Rightarrow> nat list \<Rightarrow> nat list \<Rightarrow> real" where
  "weight x gs idx = (\<Prod>g\<leftarrow>gs. x ! g ! (idx ! g))"

definition spm_dot_omit :: "ndarray \<Rightarrow> vec list \<Rightarrow> nat \<Rightarrow> vec" where
  "spm_dot_omit X x f =
     map (\<lambda>i. \<Sum>idx\<leftarrow>filter (\<lambda>idx. idx ! f = i) (indices (shape X)).
                 entry X idx * weight x (filter (\<lambda>g. g \<noteq> f) [0..<length x]) idx)
         [0..<shape X ! f]"

definition spm_dot_all :: "ndarray \<Rightarrow> vec list \<Rightarrow> vec" where
  "spm_dot_all X x =
     [\<Sum>idx\<leftarrow>indices (shape X). entry X idx * weight x [0..<length x] idx]"

subsection \<open>The joint log-likelihood (run\_FPI, lines 149 to 162)\<close>

text \<open>
  A numpy value is an array of floats or an object array, whose entries are arrays. The
  observation reaches the solver as a one-hot vector or as an object array of them.
\<close>

datatype npval = Arr ndarray | Obj "ndarray list"

datatype observation = OSingle vec | OMulti "vec list"

text \<open>
  The loop \<^verbatim>\<open>for g in range(Ng): L *= spm_dot(A[g], observation[g], obs_mode=True)\<close>.
\<close>

fun mul_modalities :: "ndarray list \<Rightarrow> vec list \<Rightarrow> nat list \<Rightarrow> ndarray \<Rightarrow> error + ndarray" where
  "mul_modalities A obs [] L = Inr L"
| "mul_modalities A obs (g # gs) L =
     (if g < length A \<and> g < length obs then
        (case mul_inplace L (spm_dot_obs (A ! g) (obs ! g)) of
           Inl e \<Rightarrow> Inl e
         | Inr L' \<Rightarrow> mul_modalities A obs gs L')
      else Inl IndexError)"

text \<open>
  With \<^verbatim>\<open>Ng == 1\<close> the source passes \<open>A\<close> and the observation to \<^verbatim>\<open>spm_dot\<close> as they
  are, otherwise it indexes both by modality; an argument of the other kind is a
  TypeError here.
\<close>

definition joint_likelihood ::
  "npval \<Rightarrow> observation \<Rightarrow> nat list \<Rightarrow> nat list \<Rightarrow> error + ndarray" where
  "joint_likelihood A obs No Ns =
     (let Ng = length No; L = np_ones Ns in
      if Ng = 1 then
        (case (A, obs) of
           (Arr a, OSingle x) \<Rightarrow> mul_inplace L (spm_dot_obs a x)
         | _ \<Rightarrow> Inl TypeError)
      else
        (case (A, obs) of
           (Obj as, OMulti xs) \<Rightarrow> mul_modalities as xs [0..<Ng] L
         | _ \<Rightarrow> Inl TypeError))"

definition joint_log_likelihood ::
  "npval \<Rightarrow> observation \<Rightarrow> nat list \<Rightarrow> nat list \<Rightarrow> error + ndarray" where
  "joint_log_likelihood A obs No Ns =
     (case joint_likelihood A obs No Ns of
        Inl e \<Rightarrow> Inl e
      | Inr L \<Rightarrow> Inr (log_floor L))"

subsection \<open>Initialisation (run\_FPI, lines 164 to 186)\<close>

text \<open>\<^verbatim>\<open>qx[f] = np.ones(Ns[f]) / Ns[f]\<close> for \<open>f\<close> in \<^verbatim>\<open>range(Nf)\<close>.\<close>

definition init_qx :: "nat list \<Rightarrow> vec list" where
  "init_qx Ns = map (\<lambda>f. replicate (Ns ! f) (1 / real (Ns ! f))) [0..<length Ns]"

text \<open>The two terms that a factor adds to the free energy.\<close>

definition h_qx :: "vec \<Rightarrow> real" where
  "h_qx q = - dot q (vlog_floor q)"

definition xh_qx_px :: "vec \<Rightarrow> vec \<Rightarrow> real" where
  "xh_qx_px q p = - dot q p"

text \<open>
  The prior is an object array: an entry that was never assigned is None. The loop that
  initialises \<^verbatim>\<open>F_prev\<close> is the first to read \<^verbatim>\<open>prior[f]\<close>: a missing entry, an
  entry None and a length other than that of \<^verbatim>\<open>qx[f]\<close> raise there.
\<close>

fun init_F_prev :: "vec list \<Rightarrow> vec option list \<Rightarrow> nat list \<Rightarrow> real \<Rightarrow> error + real" where
  "init_F_prev qx prior [] F = Inr F"
| "init_F_prev qx prior (f # fs) F =
     (if length prior \<le> f then Inl IndexError
      else (case prior ! f of
              None \<Rightarrow> Inl TypeError
            | Some p \<Rightarrow>
                (case np_dot (qx ! f) p of
                   Inl e \<Rightarrow> Inl e
                 | Inr c \<Rightarrow> init_F_prev qx prior fs (F + (h_qx (qx ! f) - c)))))"

subsection \<open>The fixed-point iteration\<close>

datatype posterior = QVec vec | QAoA "vec list"

record fpi_kwargs =
  num_iter :: int
  dF :: real
  dF_tol :: real

definition default_kwargs :: fpi_kwargs where
  "default_kwargs = \<lparr>num_iter = 10, dF = 1, dF_tol = 1 / 1000\<rparr>"

text \<open>The branch \<^verbatim>\<open>Nf == 1\<close> (lines 188 to 191).\<close>

definition single_factor :: "ndarray \<Rightarrow> vec option list \<Rightarrow> vec list \<Rightarrow> vec" where
  "single_factor L prior qx = softmax (vadd (spm_dot_omit L qx 0) (the (prior ! 0)))"

text \<open>
  From here on the prior has passed the loop above: \<^verbatim>\<open>prior[f]\<close> is a vector for
  every factor, read through \<open>map the\<close>.
\<close>

text \<open>\<^verbatim>\<open>range(Nf - 1, -1, -1)\<close>\<close>

fun range_down :: "nat \<Rightarrow> nat list" where
  "range_down 0 = []"
| "range_down (Suc n) = n # range_down n"

text \<open>
  The order of the factors in the pass \<^verbatim>\<open>f_loop\<close> (lines 202 to 206); the source
  runs it for \<open>f_loop\<close> in \<^verbatim>\<open>range(2)\<close> only.
\<close>

definition factor_order :: "nat \<Rightarrow> nat \<Rightarrow> nat list" where
  "factor_order Nf f_loop =
     (if f_loop = 0 then [0..<Nf] else if f_loop = 1 then range_down Nf else [])"

text \<open>Lines 212 to 214: \<^verbatim>\<open>qL = spm_dot(L, qx, [f]); qx[f] = softmax(qL + prior[f])\<close>.\<close>

definition fpi_update :: "ndarray \<Rightarrow> vec list \<Rightarrow> vec list \<Rightarrow> nat \<Rightarrow> vec list" where
  "fpi_update L prior qx f =
     (let qL = spm_dot_omit L qx f in qx[f := softmax (vadd qL (prior ! f))])"

text \<open>The two passes of one iteration of \<^verbatim>\<open>run_FPI\<close> (lines 202 to 214).\<close>

definition fpi_sweeps :: "ndarray \<Rightarrow> vec list \<Rightarrow> nat \<Rightarrow> vec list \<Rightarrow> vec list" where
  "fpi_sweeps L prior Nf qx =
     fold (\<lambda>f_loop qx. fold (\<lambda>f qx. fpi_update L prior qx f) (factor_order Nf f_loop) qx)
       [0..<2] qx"

text \<open>
  \<^verbatim>\<open>X * v.reshape(tuple(s))\<close> with \<open>s\<close> all ones but \<^verbatim>\<open>s[f] = len(v)\<close>: the vector is
  broadcast along axis \<open>f\<close>.
\<close>

definition mul_axis :: "ndarray \<Rightarrow> nat \<Rightarrow> vec \<Rightarrow> ndarray" where
  "mul_axis X f v = X\<lparr>entry := (\<lambda>idx. entry X idx * v ! (idx ! f))\<rparr>"

text \<open>\<^verbatim>\<open>np.sum(temp, dims2sum)\<close>, where \<open>dims2sum\<close> is every axis but \<open>f\<close>.\<close>

definition sum_except :: "ndarray \<Rightarrow> nat \<Rightarrow> vec" where
  "sum_except T f =
     map (\<lambda>i. \<Sum>idx\<leftarrow>filter (\<lambda>idx. idx ! f = i) (indices (shape T)). entry T idx)
         [0..<shape T ! f]"

text \<open>
  Lines 351 to 360 of \<^verbatim>\<open>run_FPI_faster\<close>. \<^verbatim>\<open>1.0 / qx[f]\<close> is the division of the
  reals; no entry of \<open>qx\<close> is zero there, since the beliefs are uniform weights or
  values of the softmax (\<open>beliefs_during_run\<close> below).
\<close>

definition faster_update :: "ndarray \<Rightarrow> vec list \<Rightarrow> vec list \<Rightarrow> nat \<Rightarrow> vec list" where
  "faster_update X prior qx f =
     (let temp = mul_axis X f (map (\<lambda>x. 1 / x) (qx ! f));
          qL = sum_except temp f
      in qx[f := softmax (vadd qL (prior ! f))])"

text \<open>One pass of \<^verbatim>\<open>run_FPI_faster\<close> (lines 342 to 360).\<close>

definition faster_pass :: "ndarray \<Rightarrow> vec list \<Rightarrow> nat list \<Rightarrow> vec list \<Rightarrow> vec list" where
  "faster_pass L prior order qx =
     (let X = fold (\<lambda>f X. mul_axis X f (qx ! f)) order L
      in fold (\<lambda>f qx. faster_update X prior qx f) order qx)"

definition faster_sweeps :: "ndarray \<Rightarrow> vec list \<Rightarrow> nat \<Rightarrow> vec list \<Rightarrow> vec list" where
  "faster_sweeps L prior Nf qx =
     fold (\<lambda>f_loop qx. faster_pass L prior (factor_order Nf f_loop) qx) [0..<2] qx"

text \<open>The free energy of lines 230 to 236 (and 366 to 375).\<close>

definition free_energy :: "ndarray \<Rightarrow> vec list \<Rightarrow> nat \<Rightarrow> vec list \<Rightarrow> real" where
  "free_energy L prior Nf qx =
     (let F = fold (\<lambda>f F. F + (h_qx (qx ! f) + xh_qx_px (qx ! f) (prior ! f))) [0..<Nf] 0;
          E_Q_lh = spm_dot_all L qx ! 0
      in F - E_Q_lh)"

text \<open>
  The loop \<^verbatim>\<open>while iter_i < num_iter\<close> (lines 194 to 254), the same in both solvers but
  for the passes. It returns \<open>qx\<close> and \<open>iter_i\<close> as they are when the loop is left, and
  whether it was left by \<^verbatim>\<open>break\<close>.
\<close>

record loop_exit =
  exit_qx :: "vec list"
  exit_iter :: int
  exit_break :: bool

function fpi_loop ::
  "(vec list \<Rightarrow> vec list) \<Rightarrow> (vec list \<Rightarrow> real) \<Rightarrow> int \<Rightarrow> real \<Rightarrow> int \<Rightarrow> real \<Rightarrow> vec list
     \<Rightarrow> loop_exit" where
  "fpi_loop sweeps energy n tol iter_i F_prev qx =
     (if iter_i < n then
        (let qx' = sweeps qx;
             F = energy qx';
             dF' = \<bar>F_prev - F\<bar>
         in if dF' < tol then \<lparr>exit_qx = qx', exit_iter = iter_i, exit_break = True\<rparr>
            else fpi_loop sweeps energy n tol (iter_i + 1) F qx')
      else \<lparr>exit_qx = qx, exit_iter = iter_i, exit_break = False\<rparr>)"
  by pat_completeness auto
termination
  by (relation "measure (\<lambda>(sweeps, energy, n, tol, iter_i, F_prev, qx). nat (n - iter_i))") auto

declare fpi_loop.simps [simp del]

text \<open>
  How a solver is left: by the \<^verbatim>\<open>return qx[0]\<close> of the single-factor branch, or by
  the \<^verbatim>\<open>return qx\<close> after the loop. The caller receives the posterior alone.
\<close>

datatype fpi_exit = Direct vec | Loop loop_exit

fun returned :: "fpi_exit \<Rightarrow> posterior" where
  "returned (Direct q) = QVec q"
| "returned (Loop r) = QAoA (exit_qx r)"

text \<open>The body of \<^verbatim>\<open>run_FPI\<close> up to its return statements (lines 149 to 254).\<close>

definition run_FPI_exit ::
  "npval \<Rightarrow> observation \<Rightarrow> vec option list \<Rightarrow> nat list \<Rightarrow> nat list \<Rightarrow> fpi_kwargs
     \<Rightarrow> error + fpi_exit" where
  "run_FPI_exit A obs prior No Ns kw =
     (let Nf = length Ns in
      case joint_log_likelihood A obs No Ns of
        Inl e \<Rightarrow> Inl e
      | Inr L \<Rightarrow>
          (let qx = init_qx Ns in
           case init_F_prev qx prior [0..<Nf] 0 of
             Inl e \<Rightarrow> Inl e
           | Inr F_prev \<Rightarrow>
               if Nf = 1 then Inr (Direct (single_factor L prior qx))
               else Inr (Loop
                      (fpi_loop (fpi_sweeps L (map the prior) Nf)
                         (free_energy L (map the prior) Nf)
                         (num_iter kw) (dF_tol kw) 0 F_prev qx))))"

definition run_FPI ::
  "npval \<Rightarrow> observation \<Rightarrow> vec option list \<Rightarrow> nat list \<Rightarrow> nat list \<Rightarrow> fpi_kwargs
     \<Rightarrow> error + posterior" where
  "run_FPI A obs prior No Ns kw = map_sum id returned (run_FPI_exit A obs prior No Ns kw)"

text \<open>
  The body of \<^verbatim>\<open>run_FPI_faster\<close> up to its return statements (lines 297 to 388).
  The prints are left out; that of line 376 reads \<open>f\<close>, which no loop has bound when
  there is no factor at all.
\<close>

definition run_FPI_faster_exit ::
  "npval \<Rightarrow> observation \<Rightarrow> vec option list \<Rightarrow> nat list \<Rightarrow> nat list \<Rightarrow> fpi_kwargs
     \<Rightarrow> error + fpi_exit" where
  "run_FPI_faster_exit A obs prior No Ns kw =
     (let Nf = length Ns in
      case joint_log_likelihood A obs No Ns of
        Inl e \<Rightarrow> Inl e
      | Inr L \<Rightarrow>
          (let qx = init_qx Ns in
           case init_F_prev qx prior [0..<Nf] 0 of
             Inl e \<Rightarrow> Inl e
           | Inr F_prev \<Rightarrow>
               if Nf = 1 then Inr (Direct (single_factor L prior qx))
               else Inr (Loop
                      (fpi_loop (faster_sweeps L (map the prior) Nf)
                         (free_energy L (map the prior) Nf)
                         (num_iter kw) (dF_tol kw) 0 F_prev qx))))"

definition run_FPI_faster ::
  "npval \<Rightarrow> observation \<Rightarrow> vec option list \<Rightarrow> nat list \<Rightarrow> nat list \<Rightarrow> fpi_kwargs
     \<Rightarrow> error + posterior" where
  "run_FPI_faster A obs prior No Ns kw =
     map_sum id returned (run_FPI_faster_exit A obs prior No Ns kw)"

subsection \<open>The dispatcher (update\_posterior\_states, lines 54 to 119)\<close>

text \<open>
  Modelled from the spec: the class \<^verbatim>\<open>Categorical\<close> is imported from
  \<^verbatim>\<open>inferactively.distributions\<close>, which is not among the sources. The spec: a wrapper
  that exposes its numeric values, a flag telling whether it is a collection (the values
  are an object array) and a squeeze to a vector. An argument of the dispatcher is a
  numpy value, a Categorical holding one, an int or a tuple of ints.
\<close>

datatype pyarg = Np npval | Categorical npval | PyInt int | PyTuple "int list"

datatype result = Numpy posterior | Cat posterior

text \<open>\<^verbatim>\<open>a.squeeze()\<close>: the axes of length one are dropped.\<close>

fun unsqueeze_idx :: "nat list \<Rightarrow> nat list \<Rightarrow> nat list" where
  "unsqueeze_idx [] idx = []"
| "unsqueeze_idx (n # ns) idx =
     (if n = 1 then 0 # unsqueeze_idx ns idx
      else (case idx of [] \<Rightarrow> [] | i # is \<Rightarrow> i # unsqueeze_idx ns is))"

definition squeeze :: "ndarray \<Rightarrow> ndarray" where
  "squeeze a =
     \<lparr>shape = filter (\<lambda>n. n \<noteq> 1) (shape a),
      entry = (\<lambda>idx. entry a (unsqueeze_idx (shape a) idx))\<rparr>"

text \<open>
  The model of the solver works on one-dimensional arrays for the observations and the
  priors. An array of another rank is outside it and is reported as TypeError where it
  would enter the solver.
\<close>

definition as_vec :: "ndarray \<Rightarrow> error + vec" where
  "as_vec a =
     (if length (shape a) = 1 then Inr (vec_of a) else Inl TypeError)"

fun as_vecs :: "ndarray list \<Rightarrow> error + vec list" where
  "as_vecs [] = Inr []"
| "as_vecs (a # as) =
     (case as_vec a of
        Inl e \<Rightarrow> Inl e
      | Inr v \<Rightarrow> (case as_vecs as of Inl e \<Rightarrow> Inl e | Inr vs \<Rightarrow> Inr (v # vs)))"

text \<open>\<^verbatim>\<open>np.eye(n)[i]\<close>; a negative index counts from the end.\<close>

definition one_hot :: "nat \<Rightarrow> int \<Rightarrow> error + vec" where
  "one_hot n i =
     (if - int n \<le> i \<and> i < int n then
        Inr (map (\<lambda>k. if int k = (if i < 0 then i + int n else i) then 1 else 0) [0..<n])
      else Inl IndexError)"

text \<open>Lines 57 to 68: \<open>Ns\<close> and \<open>No\<close> from the shape of \<open>A\<close>; \<open>Nf\<close> and \<open>Ng\<close> are
  their lengths.\<close>

definition infer_dims :: "npval \<Rightarrow> error + nat list \<times> nat list" where
  "infer_dims A =
     (case A of
        Obj as \<Rightarrow>
          (if as = [] then Inl IndexError
           else if \<exists>a\<in>set as. shape a = [] then Inl IndexError
           else Inr (tl (shape (as ! 0)), map (\<lambda>a. hd (shape a)) as))
      | Arr a \<Rightarrow>
          (if shape a = [] then Inl IndexError
           else Inr (tl (shape a), [hd (shape a)])))"

text \<open>
  Lines 75 to 76: \<^verbatim>\<open>observation[g] = observation[g].squeeze()\<close> for \<open>g\<close> in
  \<^verbatim>\<open>range(Ng)\<close>, on the object array that the Categorical holds. The array after the
  loop is returned also when the loop raises.
\<close>

fun squeeze_each :: "ndarray list \<Rightarrow> nat list \<Rightarrow> error option \<times> ndarray list" where
  "squeeze_each xs [] = (None, xs)"
| "squeeze_each xs (g # gs) =
     (if g < length xs then squeeze_each (xs[g := squeeze (xs ! g)]) gs
      else (Some IndexError, xs))"

text \<open>Lines 82 to 84: \<^verbatim>\<open>observation_AoA[g] = np.eye(No[g])[observation[g]]\<close>.\<close>

fun eye_tuple :: "nat list \<Rightarrow> int list \<Rightarrow> nat list \<Rightarrow> error + vec list" where
  "eye_tuple No obs [] = Inr []"
| "eye_tuple No obs (g # gs) =
     (if g < length obs \<and> g < length No then
        (case one_hot (No ! g) (obs ! g) of
           Inl e \<Rightarrow> Inl e
         | Inr v \<Rightarrow> (case eye_tuple No obs gs of Inl e \<Rightarrow> Inl e | Inr vs \<Rightarrow> Inr (v # vs)))
      else Inl IndexError)"

text \<open>
  Lines 70 to 86. The second component is the caller's observation object after these
  lines: the Categorical's own array when its entries were replaced. A Categorical
  whose values are a single array with several modalities, or an object array with one
  modality, is outside the model and reported as TypeError.
\<close>

definition normalize_observation :: "pyarg \<Rightarrow> nat list \<Rightarrow> (error + observation) \<times> pyarg" where
  "normalize_observation observation No =
     (let Ng = length No in
      case observation of
        Categorical (Arr a) \<Rightarrow>
          (if Ng = 1 then map_sum id OSingle (as_vec (squeeze a)) else Inl TypeError,
           observation)
      | Categorical (Obj xs) \<Rightarrow>
          (if Ng = 1 then (Inl TypeError, observation)
           else (case squeeze_each xs [0..<Ng] of
                   (Some e, xs') \<Rightarrow> (Inl e, Categorical (Obj xs'))
                 | (None, xs') \<Rightarrow> (map_sum id OMulti (as_vecs xs'), Categorical (Obj xs'))))
      | Np (Arr a) \<Rightarrow> (map_sum id OSingle (as_vec a), observation)
      | Np (Obj xs) \<Rightarrow> (map_sum id OMulti (as_vecs xs), observation)
      | PyInt i \<Rightarrow> (map_sum id OSingle (one_hot (No ! 0) i), observation)
      | PyTuple is \<Rightarrow> (map_sum id OMulti (eye_tuple No is [0..<Ng]), observation))"

text \<open>Lines 91 to 92: \<^verbatim>\<open>prior_new[f] = prior[f].values.squeeze()\<close>.\<close>

fun prior_each :: "ndarray list \<Rightarrow> nat list \<Rightarrow> vec option list \<Rightarrow> error + vec option list" where
  "prior_each ps [] prior_new = Inr prior_new"
| "prior_each ps (f # fs) prior_new =
     (if f < length ps then
        (case as_vec (squeeze (ps ! f)) of
           Inl e \<Rightarrow> Inl e
         | Inr v \<Rightarrow> prior_each ps fs (prior_new[f := Some v]))
      else Inl IndexError)"

text \<open>Lines 88 to 101; \<^verbatim>\<open>np.empty(Nf, dtype=object)\<close> is an array of None.\<close>

definition normalize_prior :: "pyarg \<Rightarrow> nat \<Rightarrow> error + vec option list" where
  "normalize_prior prior Nf =
     (let prior_new = replicate Nf None in
      case prior of
        Categorical (Obj ps) \<Rightarrow> prior_each ps [0..<Nf] prior_new
      | Categorical (Arr p) \<Rightarrow>
          (if Nf = 0 then Inl IndexError
           else map_sum id (\<lambda>v. prior_new[0 := Some v]) (as_vec (squeeze p)))
      | Np (Arr p) \<Rightarrow>
          (if Nf = 0 then Inl IndexError
           else map_sum id (\<lambda>v. prior_new[0 := Some v]) (as_vec p))
      | Np (Obj ps) \<Rightarrow> map_sum id (map Some) (as_vecs ps)
      | _ \<Rightarrow> Inl AttributeError)"

text \<open>The caller's three argument objects, before and after a call.\<close>

record caller_args =
  arg_A :: pyarg
  arg_observation :: pyarg
  arg_prior :: pyarg

text \<open>Lines 54 to 101: the canonical inputs of the solver, and the caller's objects.\<close>

definition normalize_inputs ::
  "caller_args \<Rightarrow>
     (error + npval \<times> observation \<times> vec option list \<times> nat list \<times> nat list) \<times> caller_args" where
  "normalize_inputs args =
     (case (case arg_A args of Categorical v \<Rightarrow> Inr v | Np v \<Rightarrow> Inr v | _ \<Rightarrow> Inl AttributeError) of
        Inl e \<Rightarrow> (Inl e, args)
      | Inr A \<Rightarrow>
          (case infer_dims A of
             Inl e \<Rightarrow> (Inl e, args)
           | Inr (Ns, No) \<Rightarrow>
               (case normalize_observation (arg_observation args) No of
                  (Inl e, obs_after) \<Rightarrow> (Inl e, args\<lparr>arg_observation := obs_after\<rparr>)
                | (Inr observation, obs_after) \<Rightarrow>
                    (case normalize_prior (arg_prior args) (length Ns) of
                       Inl e \<Rightarrow> (Inl e, args\<lparr>arg_observation := obs_after\<rparr>)
                     | Inr prior \<Rightarrow>
                         (Inr (A, observation, prior, No, Ns),
                          args\<lparr>arg_observation := obs_after\<rparr>)))))"

text \<open>
  Lines 103 to 119. \<open>qx\<close> is bound only by the branch of \<^verbatim>\<open>"FPI"\<close>; the name
  \<^verbatim>\<open>run_FPI\<close> is looked up when that branch runs, so the solver is a parameter here.
\<close>

type_synonym solver =
  "npval \<Rightarrow> observation \<Rightarrow> vec option list \<Rightarrow> nat list \<Rightarrow> nat list \<Rightarrow> fpi_kwargs
     \<Rightarrow> error + posterior"

definition dispatch ::
  "solver \<Rightarrow> npval \<times> observation \<times> vec option list \<times> nat list \<times> nat list \<Rightarrow> bool \<Rightarrow> string
     \<Rightarrow> fpi_kwargs \<Rightarrow> error + result" where
  "dispatch fpi canon return_numpy method kwargs =
     (case canon of (A, observation, prior, No, Ns) \<Rightarrow>
        (case (if method = ''FPI'' then map_sum id Some (fpi A observation prior No Ns kwargs)
               else Inr None) of
           Inl e \<Rightarrow> Inl e
         | Inr qx \<Rightarrow>
             if method = ''VMP'' then Inl (NotImplementedError ''VMP is not implemented'')
             else if method = ''MMP'' then Inl (NotImplementedError ''MMP is not implemented'')
             else if method = ''BP'' then Inl (NotImplementedError ''BP is not implemented'')
             else if method = ''EP'' then Inl (NotImplementedError ''EP is not implemented'')
             else if method = ''CV'' then Inl (NotImplementedError ''CV is not implemented'')
             else (case qx of
                     None \<Rightarrow> Inl UnboundLocalError
                   | Some q \<Rightarrow> Inr (if return_numpy then Numpy q else Cat q))))"

definition update_posterior_states_with ::
  "solver \<Rightarrow> caller_args \<Rightarrow> bool \<Rightarrow> string \<Rightarrow> fpi_kwargs \<Rightarrow> (error + result) \<times> caller_args" where
  "update_posterior_states_with fpi args return_numpy method kwargs =
     (case normalize_inputs args of
        (Inl e, args') \<Rightarrow> (Inl e, args')
      | (Inr canon, args') \<Rightarrow> (dispatch fpi canon return_numpy method kwargs, args'))"

definition update_posterior_states ::
  "caller_args \<Rightarrow> bool \<Rightarrow> string \<Rightarrow> fpi_kwargs \<Rightarrow> (error + result) \<times> caller_args" where
  "update_posterior_states = update_posterior_states_with run_FPI"

subsection \<open>The course of the loop, as the spec describes it\<close>

text \<open>
  The pair of \<^verbatim>\<open>F_prev\<close> and \<^verbatim>\<open>qx\<close> after \<open>k\<close> full iterations that did not stop, and
  the change \<^verbatim>\<open>|F_prev - F|\<close> that iteration \<open>k\<close> (counted from 0) compares with the
  tolerance.
\<close>

fun fpi_trace ::
  "(vec list \<Rightarrow> vec list) \<Rightarrow> (vec list \<Rightarrow> real) \<Rightarrow> real \<Rightarrow> vec list \<Rightarrow> nat \<Rightarrow> real \<times> vec list" where
  "fpi_trace sweeps energy F qx 0 = (F, qx)"
| "fpi_trace sweeps energy F qx (Suc k) =
     fpi_trace sweeps energy (energy (sweeps qx)) (sweeps qx) k"

definition fpi_delta ::
  "(vec list \<Rightarrow> vec list) \<Rightarrow> (vec list \<Rightarrow> real) \<Rightarrow> real \<Rightarrow> vec list \<Rightarrow> nat \<Rightarrow> real" where
  "fpi_delta sweeps energy F qx k =
     \<bar>fst (fpi_trace sweeps energy F qx k) - fst (fpi_trace sweeps energy F qx (Suc k))\<bar>"

subsection \<open>The two passes, as the spec describes them\<close>

text \<open>
  The update of the claim: in the order \<open>0..Nf-1\<close> and then \<open>Nf-1..0\<close>, the belief of
  the visited factor becomes the softmax of its marginal log-likelihood under the
  current beliefs of the other factors, plus its prior.
\<close>

definition two_pass_update :: "ndarray \<Rightarrow> vec list \<Rightarrow> nat \<Rightarrow> vec list \<Rightarrow> vec list" where
  "two_pass_update L prior Nf qx =
     fold (\<lambda>f qx. qx[f := softmax (vadd (spm_dot_omit L qx f) (prior ! f))])
       ([0..<Nf] @ rev [0..<Nf]) qx"

text \<open>
  One pass in which every marginal is taken under the beliefs \<open>q0\<close> that held when the
  pass began.
\<close>

definition frozen_pass :: "ndarray \<Rightarrow> vec list \<Rightarrow> nat list \<Rightarrow> vec list \<Rightarrow> vec list" where
  "frozen_pass L prior order q0 =
     fold (\<lambda>f qx. qx[f := softmax (vadd (spm_dot_omit L q0 f) (prior ! f))]) order q0"

subsection \<open>Categorical vectors\<close>

text \<open>
  A valid categorical distribution, in the words of the spec: all entries are
  non-negative and they sum to 1. The vectors that a posterior holds.
\<close>

definition categorical :: "vec \<Rightarrow> bool" where
  "categorical v \<longleftrightarrow> (\<forall>x\<in>set v. 0 \<le> x) \<and> sum_list v = 1"

fun vectors :: "posterior \<Rightarrow> vec list" where
  "vectors (QVec v) = [v]"
| "vectors (QAoA vs) = vs"

text \<open>
  A likelihood and an observation as the data model of the spec has them, without a
  negative entry. There every logarithm of a run has a positive argument
  (\<open>log_arguments_positive\<close> below), and \<open>ln\<close> is the logarithm that numpy
  computes; with a negative entry numpy computes nan, which is outside the model.
\<close>

definition nonneg_array :: "ndarray \<Rightarrow> bool" where
  "nonneg_array a \<longleftrightarrow> (\<forall>idx. 0 \<le> entry a idx)"

fun nonneg_likelihood :: "npval \<Rightarrow> bool" where
  "nonneg_likelihood (Arr a) = nonneg_array a"
| "nonneg_likelihood (Obj as) = (\<forall>a\<in>set as. nonneg_array a)"

fun nonneg_observation :: "observation \<Rightarrow> bool" where
  "nonneg_observation (OSingle x) = (\<forall>v\<in>set x. 0 \<le> v)"
| "nonneg_observation (OMulti xs) = (\<forall>x\<in>set xs. \<forall>v\<in>set x. 0 \<le> v)"

text \<open>
  The beliefs that the loop works on: one vector for each factor, of the length of the
  factor, with positive entries that sum to 1.
\<close>

definition beliefs :: "nat list \<Rightarrow> vec list \<Rightarrow> bool" where
  "beliefs Ns qx \<longleftrightarrow>
     length qx = length Ns \<and>
     (\<forall>f<length Ns. length (qx ! f) = Ns ! f \<and> (\<forall>x\<in>set (qx ! f). 0 < x) \<and> sum_list (qx ! f) = 1)"

subsection \<open>Example inputs\<close>

text \<open>
  One modality with two outcomes, one factor with two states: the likelihood
  \<open>[[0.9, 0.1], [0.1, 0.9]]\<close>, the observation index 0 and the flat log-prior \<open>[0, 0]\<close>.
\<close>

definition ex_A :: ndarray where
  "ex_A = \<lparr>shape = [2, 2],
           entry = (\<lambda>idx. if idx = [0, 0] \<or> idx = [1, 1] then 9 / 10 else 1 / 10)\<rparr>"

definition ex_args :: caller_args where
  "ex_args = \<lparr>arg_A = Np (Arr ex_A), arg_observation = PyInt 0,
              arg_prior = Np (Arr \<lparr>shape = [2], entry = (\<lambda>_. 0)\<rparr>)\<rparr>"

text \<open>
  One modality with two outcomes, two factors with two states each: the observed
  outcome 0 has probability 0.9 in the joint state (0, 0) and 0.1 in the three others.
\<close>

definition ex_A2 :: ndarray where
  "ex_A2 = \<lparr>shape = [2, 2, 2],
            entry = (\<lambda>idx. if idx = [0, 0, 0] then 9 / 10 else if idx = [1, 0, 0] then 1 / 10
                           else if hd idx = 0 then 1 / 10 else 9 / 10)\<rparr>"

definition ex_prior2 :: "vec option list" where
  "ex_prior2 = [Some [0, 0], Some [0, 0]]"

text \<open>The joint log-likelihood of that example under the observed outcome 0.\<close>

definition ex_L2 :: ndarray where
  "ex_L2 = (case joint_log_likelihood (Arr ex_A2) (OSingle [1, 0]) [2] [2, 2] of
              Inr L \<Rightarrow> L | Inl e \<Rightarrow> np_ones [2, 2])"

text \<open>
  In that example: the distribution on two states with mass \<open>t\<close> on the first, and the
  mass that an update of one factor puts on its first state when the other factor has
  mass \<open>t\<close> on its first state.
\<close>

definition two_point :: "real \<Rightarrow> vec" where
  "two_point t = [t, 1 - t]"

definition ex_step :: "real \<Rightarrow> real" where
  "ex_step t = 1 / (1 + exp (- ((ln (9 / 10 + eps16) - ln (1 / 10 + eps16)) * t)))"

text \<open>
  A likelihood with a negative entry: \<open>[[-0.5, 0.5], [1.5, 0.5]]\<close>, with the observation
  index 0 and the flat log-prior.
\<close>

definition ex_A_neg :: ndarray where
  "ex_A_neg = \<lparr>shape = [2, 2],
               entry = (\<lambda>idx. if idx = [0, 0] then - 1 / 2 else if idx = [1, 0] then 3 / 2
                              else 1 / 2)\<rparr>"

definition ex_args_neg :: caller_args where
  "ex_args_neg = \<lparr>arg_A = Np (Arr ex_A_neg), arg_observation = PyInt 0,
                  arg_prior = Np (Arr \<lparr>shape = [2], entry = (\<lambda>_. 0)\<rparr>)\<rparr>"

text \<open>
  Two factors with two states each and a likelihood that does not depend on them: every
  entry is 0.5. The joint log-likelihood under the observed outcome 0, and the keyword
  arguments with \<^verbatim>\<open>num_iter=1\<close>.
\<close>

definition ex_A_flat :: ndarray where
  "ex_A_flat = \<lparr>shape = [2, 2, 2], entry = (\<lambda>idx. 1 / 2)\<rparr>"

definition ex_L_flat :: ndarray where
  "ex_L_flat = (case joint_log_likelihood (Arr ex_A_flat) (OSingle [1, 0]) [2] [2, 2] of
                 Inr L \<Rightarrow> L | Inl e \<Rightarrow> np_ones [2, 2])"

definition ex_kw_one :: fpi_kwargs where
  "ex_kw_one = \<lparr>num_iter = 1, dF = 1, dF_tol = 1 / 1000\<rparr>"

text \<open>
  Two modalities and one factor: the likelihood of the first example for both
  modalities, and as observation a Categorical whose values are the two one-hot column
  vectors of shape (2, 1) for the outcome 0.
\<close>

definition ex_col :: ndarray where
  "ex_col = \<lparr>shape = [2, 1], entry = (\<lambda>idx. if idx = [0, 0] then 1 else 0)\<rparr>"

definition ex_args_cat :: caller_args where
  "ex_args_cat = \<lparr>arg_A = Np (Obj [ex_A, ex_A]),
                  arg_observation = Categorical (Obj [ex_col, ex_col]),
                  arg_prior = Np (Arr \<lparr>shape = [2], entry = (\<lambda>_. 0)\<rparr>)\<rparr>"

section \<open>Properties\<close>

subsection \<open>The solvers, return value by return value\<close>

lemma run_FPI_unfold:
  "run_FPI A obs prior No Ns kw =
     (let Nf = length Ns in
      case joint_log_likelihood A obs No Ns of
        Inl e \<Rightarrow> Inl e
      | Inr L \<Rightarrow>
          (let qx = init_qx Ns in
           case init_F_prev qx prior [0..<Nf] 0 of
             Inl e \<Rightarrow> Inl e
           | Inr F_prev \<Rightarrow>
               if Nf = 1 then Inr (QVec (single_factor L prior qx))
               else Inr (QAoA (exit_qx
                      (fpi_loop (fpi_sweeps L (map the prior) Nf)
                         (free_energy L (map the prior) Nf)
                         (num_iter kw) (dF_tol kw) 0 F_prev qx)))))"
  by (simp add: run_FPI_def run_FPI_exit_def Let_def split: sum.splits)

lemma run_FPI_faster_unfold:
  "run_FPI_faster A obs prior No Ns kw =
     (let Nf = length Ns in
      case joint_log_likelihood A obs No Ns of
        Inl e \<Rightarrow> Inl e
      | Inr L \<Rightarrow>
          (let qx = init_qx Ns in
           case init_F_prev qx prior [0..<Nf] 0 of
             Inl e \<Rightarrow> Inl e
           | Inr F_prev \<Rightarrow>
               if Nf = 1 then Inr (QVec (single_factor L prior qx))
               else Inr (QAoA (exit_qx
                      (fpi_loop (faster_sweeps L (map the prior) Nf)
                         (free_energy L (map the prior) Nf)
                         (num_iter kw) (dF_tol kw) 0 F_prev qx)))))"
  by (simp add: run_FPI_faster_def run_FPI_faster_exit_def Let_def split: sum.splits)

subsection \<open>The dispatch on the method name\<close>

lemma ex_args_normalize: "\<exists>c. fst (normalize_inputs ex_args) = Inr c"
  by (simp add: normalize_inputs_def ex_args_def ex_A_def infer_dims_def
      normalize_observation_def one_hot_def normalize_prior_def as_vec_def vec_of_def)

lemma dispatch_not_implemented:
  assumes "method \<in> {''VMP'', ''MMP'', ''BP'', ''EP'', ''CV''}"
  shows "dispatch fpi canon rn method kw =
           Inl (NotImplementedError (method @ '' is not implemented''))"
  using assms by (cases canon) (auto simp: dispatch_def)

lemma dispatch_unbound:
  assumes "method \<notin> {''FPI'', ''VMP'', ''MMP'', ''BP'', ''EP'', ''CV''}"
  shows "dispatch fpi canon rn method kw = Inl UnboundLocalError"
  using assms by (cases canon) (auto simp: dispatch_def)

text \<open>
  C4. For each of the method names VMP, MMP, BP, EP and CV, update\_posterior\_states
  fails: it never returns a posterior, and whenever the arguments pass the input
  normalisation of lines 54 to 101 the failure is the NotImplementedError of that
  method. The outcome is the same whatever solver stands behind the name run\_FPI, so
  no inference is computed and FPI is not substituted.
\<close>

theorem unsupported_method_fails:
  assumes "method \<in> {''VMP'', ''MMP'', ''BP'', ''EP'', ''CV''}"
  shows "(\<forall>fpi. update_posterior_states_with fpi args rn method kw =
              update_posterior_states args rn method kw)
       \<and> (\<exists>e. fst (update_posterior_states args rn method kw) = Inl e)
       \<and> (\<forall>canon. fst (normalize_inputs args) = Inr canon \<longrightarrow>
            fst (update_posterior_states args rn method kw) =
              Inl (NotImplementedError (method @ '' is not implemented'')))"
  using assms
  by (auto simp: update_posterior_states_def update_posterior_states_with_def
      dispatch_not_implemented split: prod.splits sum.splits)

theorem unsupported_method_fails_witness:
  "fst (update_posterior_states ex_args True ''VMP'' default_kwargs) =
     Inl (NotImplementedError ''VMP is not implemented'')"
proof -
  obtain c where c: "fst (normalize_inputs ex_args) = Inr c"
    using ex_args_normalize by blast
  have m: "''VMP'' \<in> {''VMP'', ''MMP'', ''BP'', ''EP'', ''CV''}" by simp
  show ?thesis
    using unsupported_method_fails [OF m, of ex_args True default_kwargs] c
    by (cases c) auto
qed

text \<open>
  C10. With a method name that is none of FPI, VMP, MMP, BP, EP and CV, no branch binds
  qx: update\_posterior\_states never returns a posterior, does not fall back to FPI
  (the outcome is the same whatever the solver), and whenever the arguments pass the
  input normalisation the failure is the UnboundLocalError of the final read of qx.
\<close>

theorem unknown_method_unbound:
  assumes "method \<notin> {''FPI'', ''VMP'', ''MMP'', ''BP'', ''EP'', ''CV''}"
  shows "(\<forall>fpi. update_posterior_states_with fpi args rn method kw =
              update_posterior_states args rn method kw)
       \<and> (\<exists>e. fst (update_posterior_states args rn method kw) = Inl e)
       \<and> (\<forall>canon. fst (normalize_inputs args) = Inr canon \<longrightarrow>
            fst (update_posterior_states args rn method kw) = Inl UnboundLocalError)"
  using assms
  by (auto simp: update_posterior_states_def update_posterior_states_with_def
      dispatch_unbound split: prod.splits sum.splits)

theorem unknown_method_unbound_witness:
  "fst (update_posterior_states ex_args True ''fpi'' default_kwargs) = Inl UnboundLocalError"
proof -
  obtain c where c: "fst (normalize_inputs ex_args) = Inr c"
    using ex_args_normalize by blast
  have m: "''fpi'' \<notin> {''FPI'', ''VMP'', ''MMP'', ''BP'', ''EP'', ''CV''}" by simp
  show ?thesis
    using unknown_method_unbound [OF m, of ex_args True default_kwargs] c
    by (cases c) auto
qed

subsection \<open>The single-factor case\<close>

lemma mul_modalities_shape:
  "mul_modalities A obs gs L = Inr L' \<Longrightarrow> shape L' = shape L"
  by (induction A obs gs L rule: mul_modalities.induct)
     (auto simp: mul_inplace_def split: if_splits sum.splits)

lemma joint_likelihood_shape:
  "joint_likelihood A obs No Ns = Inr L \<Longrightarrow> shape L = Ns"
  by (auto simp: joint_likelihood_def Let_def mul_inplace_def np_ones_def
      dest: mul_modalities_shape split: if_splits npval.splits observation.splits)

lemma joint_log_likelihood_shape:
  "joint_log_likelihood A obs No Ns = Inr L \<Longrightarrow> shape L = Ns"
  by (auto simp: joint_log_likelihood_def log_floor_def dest: joint_likelihood_shape
      split: sum.splits)

lemma indices_one: "indices [n] = map (\<lambda>i. [i]) [0..<n]"
  by (simp add: indices_def)

lemma filter_eq_upt:
  "i < n \<Longrightarrow> filter (\<lambda>k. k = i) [0..<n] = [i]"
  by (induction n) auto

lemma spm_dot_omit_one:
  assumes "shape L = [n]" "length x = 1"
  shows "spm_dot_omit L x 0 = vec_of L"
proof -
  have "filter (\<lambda>idx. idx ! 0 = i) (map (\<lambda>i. [i]) [0..<n]) = [[i]]" if "i < n" for i
    using that by (simp add: filter_map o_def filter_eq_upt)
  then show ?thesis
    using assms by (simp add: spm_dot_omit_def vec_of_def indices_one weight_def)
qed

lemma init_F_prev_one:
  assumes "prior \<noteq> []" "prior ! 0 = Some p" "length p = length (qx ! 0)"
  shows "\<exists>F. init_F_prev qx prior [0] 0 = Inr F"
  using assms by (simp add: np_dot_def)

lemma run_single_factor:
  assumes "length Ns = 1"
      and "joint_log_likelihood A obs No Ns = Inr L"
      and "prior \<noteq> []" and "prior ! 0 = Some p" and "length p = Ns ! 0"
  shows "run_FPI A obs prior No Ns kw = Inr (QVec (softmax (vadd (vec_of L) p)))"
    and "run_FPI_faster A obs prior No Ns kw = Inr (QVec (softmax (vadd (vec_of L) p)))"
proof -
  obtain n where Ns: "Ns = [n]"
    using assms(1) by (cases Ns) auto
  have sh: "shape L = [n]"
    using joint_log_likelihood_shape [OF assms(2)] Ns by simp
  have qx: "init_qx Ns = [replicate n (1 / real n)]"
    by (simp add: init_qx_def Ns)
  obtain F where F: "init_F_prev (init_qx Ns) prior [0] 0 = Inr F"
    using init_F_prev_one [of prior p "init_qx Ns"] assms(3,4,5) qx Ns by auto
  have sf: "single_factor L prior (init_qx Ns) = softmax (vadd (vec_of L) p)"
    by (simp add: single_factor_def spm_dot_omit_one [OF sh] qx assms(4))
  show "run_FPI A obs prior No Ns kw = Inr (QVec (softmax (vadd (vec_of L) p)))"
    using assms(2) F sf by (simp add: run_FPI_unfold Ns)
  show "run_FPI_faster A obs prior No Ns kw = Inr (QVec (softmax (vadd (vec_of L) p)))"
    using assms(2) F sf by (simp add: run_FPI_faster_unfold Ns)
qed

text \<open>
  C2. With exactly one hidden-state factor both solvers return, without entering the
  loop, the vector softmax(L + prior[0]), where L is the joint log-likelihood built from
  the observation; the result is the same for every num\_iter and dF\_tol.
\<close>

theorem single_factor_closed_form:
  assumes "length Ns = 1"
      and "joint_log_likelihood A obs No Ns = Inr L"
      and "prior \<noteq> []" and "prior ! 0 = Some p" and "length p = Ns ! 0"
  shows "run_FPI A obs prior No Ns kw = Inr (QVec (softmax (vadd (vec_of L) p)))
       \<and> run_FPI_faster A obs prior No Ns kw = Inr (QVec (softmax (vadd (vec_of L) p)))
       \<and> run_FPI A obs prior No Ns kw' = run_FPI A obs prior No Ns kw
       \<and> run_FPI_faster A obs prior No Ns kw' = run_FPI_faster A obs prior No Ns kw"
  by (simp add: run_single_factor [OF assms])

lemma ex_joint:
  "joint_log_likelihood (Arr ex_A) (OSingle [1, 0]) [2] [2] =
     Inr (log_floor ((np_ones [2])\<lparr>entry :=
            (\<lambda>idx. entry (np_ones [2]) idx * entry (spm_dot_obs ex_A [1, 0]) (bcast_idx [2] idx))\<rparr>))"
  by (simp add: joint_log_likelihood_def joint_likelihood_def mul_inplace_def spm_dot_obs_def
      ex_A_def np_ones_def)

theorem single_factor_closed_form_witness:
  "run_FPI (Arr ex_A) (OSingle [1, 0]) [Some [0, 0]] [2] [2] default_kwargs =
     Inr (QVec (softmax [ln (9 / 10 + eps16), ln (1 / 10 + eps16)]))"
proof -
  have v: "vec_of (log_floor ((np_ones [2])\<lparr>entry :=
            (\<lambda>idx. entry (np_ones [2]) idx * entry (spm_dot_obs ex_A [1, 0]) (bcast_idx [2] idx))\<rparr>))
     = [ln (9 / 10 + eps16), ln (1 / 10 + eps16)]"
    by (simp add: vec_of_def log_floor_def np_ones_def spm_dot_obs_def ex_A_def bcast_idx_def
        upt_rec numeral_2_eq_2)
  show ?thesis
    using single_factor_closed_form [OF _ ex_joint, of "[Some [0, 0]]" "[0, 0]" default_kwargs default_kwargs] v
    by (simp add: vadd_def)
qed

subsection \<open>The loop and its two exits\<close>

lemma fpi_trace_Suc:
  "fpi_trace S E F q (Suc k) =
     (E (S (snd (fpi_trace S E F q k))), S (snd (fpi_trace S E F q k)))"
  by (induction k arbitrary: F q) simp_all

lemma fpi_delta_0: "fpi_delta S E F q 0 = \<bar>F - E (S q)\<bar>"
  by (simp add: fpi_delta_def)

lemma fpi_delta_Suc: "fpi_delta S E F q (Suc j) = fpi_delta S E (E (S q)) (S q) j"
  by (simp add: fpi_delta_def)

lemma fpi_loop_exit:
  "\<exists>m. exit_qx (fpi_loop S E n tol i F q) = snd (fpi_trace S E F q m)
      \<and> int m \<le> max 0 (n - i)
      \<and> (\<forall>j. Suc j < m \<longrightarrow> \<not> fpi_delta S E F q j < tol)
      \<and> (int m < n - i \<longrightarrow> 0 < m \<and> fpi_delta S E F q (m - 1) < tol)"
proof (induction S E n tol i F q rule: fpi_loop.induct)
  case (1 S E n tol i F q)
  show ?case
  proof (cases "i < n")
    case False
    then have "exit_qx (fpi_loop S E n tol i F q) = snd (fpi_trace S E F q 0)"
      by (simp add: fpi_loop.simps [of S E n tol i F q])
    with False show ?thesis
      by (intro exI [of _ 0]) auto
  next
    case True
    show ?thesis
    proof (cases "\<bar>F - E (S q)\<bar> < tol")
      case stop: True
      have "exit_qx (fpi_loop S E n tol i F q) = snd (fpi_trace S E F q 1)"
        using True stop by (simp add: fpi_loop.simps [of S E n tol i F q] Let_def)
      with True stop show ?thesis
        by (intro exI [of _ 1]) (auto simp: fpi_delta_0)
    next
      case go: False
      from "1.IH" [OF True refl refl refl go]
      obtain m where m:
        "exit_qx (fpi_loop S E n tol (i + 1) (E (S q)) (S q)) = snd (fpi_trace S E (E (S q)) (S q) m)"
        "int m \<le> max 0 (n - (i + 1))"
        "\<forall>j. Suc j < m \<longrightarrow> \<not> fpi_delta S E (E (S q)) (S q) j < tol"
        "int m < n - (i + 1) \<longrightarrow> 0 < m \<and> fpi_delta S E (E (S q)) (S q) (m - 1) < tol"
        by blast
      have eq: "fpi_loop S E n tol i F q = fpi_loop S E n tol (i + 1) (E (S q)) (S q)"
        using True go by (simp add: fpi_loop.simps [of S E n tol i F q] Let_def)
      have a: "exit_qx (fpi_loop S E n tol i F q) = snd (fpi_trace S E F q (Suc m))"
        using m(1) eq by simp
      have b: "int (Suc m) \<le> max 0 (n - i)"
        using m(2) True by simp
      have c: "\<not> fpi_delta S E F q j < tol" if "Suc j < Suc m" for j
      proof (cases j)
        case 0
        then show ?thesis using go by (simp add: fpi_delta_0)
      next
        case (Suc j')
        then show ?thesis using m(3) that by (simp add: fpi_delta_Suc)
      qed
      have d: "0 < Suc m \<and> fpi_delta S E F q (Suc m - 1) < tol" if "int (Suc m) < n - i"
      proof -
        from that have "int m < n - (i + 1)" by simp
        with m(4) have "0 < m" "fpi_delta S E (E (S q)) (S q) (m - 1) < tol" by simp_all
        then show ?thesis
          by (cases m) (simp_all add: fpi_delta_Suc)
      qed
      show ?thesis
        using a b c d by (intro exI [of _ "Suc m"]) blast
    qed
  qed
qed


lemma fpi_loop_exit0:
  "\<exists>m. int m \<le> max 0 n
      \<and> exit_qx (fpi_loop S E n tol 0 F q) = snd (fpi_trace S E F q m)
      \<and> (\<forall>j. Suc j < m \<longrightarrow> \<not> fpi_delta S E F q j < tol)
      \<and> (int m < n \<longrightarrow> 0 < m \<and> fpi_delta S E F q (m - 1) < tol)"
  using fpi_loop_exit [of S E n tol 0 F q] by auto

lemma ex_joint2:
  "\<exists>L. joint_log_likelihood (Arr ex_A2) (OSingle [1, 0]) [2] [2, 2] = Inr L"
  by (simp add: joint_log_likelihood_def joint_likelihood_def mul_inplace_def spm_dot_obs_def
      ex_A2_def np_ones_def)

lemma ex_init2:
  "\<exists>F. init_F_prev (init_qx [2, 2]) ex_prior2 [0..<length [2, 2 :: nat]] 0 = Inr F"
  by (simp add: init_qx_def ex_prior2_def np_dot_def upt_rec numeral_2_eq_2)

text \<open>
  C3. With more than one factor both solvers return after some number m of full
  iterations that is at most num\_iter: the returned qx is the one after m iterations.
  No iteration before the last one run had a change of the free energy below dF\_tol,
  and when fewer than num\_iter iterations were run, the last one had a change
  |F\_prev - F| below dF\_tol.
\<close>

theorem loop_stops_within_cap:
  assumes "1 < length Ns"
      and "joint_log_likelihood A obs No Ns = Inr L"
      and "init_F_prev (init_qx Ns) prior [0..<length Ns] 0 = Inr F0"
  shows "(\<exists>m. int m \<le> max 0 (num_iter kw)
            \<and> run_FPI A obs prior No Ns kw =
                Inr (QAoA (snd (fpi_trace (fpi_sweeps L (map the prior) (length Ns))
                     (free_energy L (map the prior) (length Ns)) F0 (init_qx Ns) m)))
            \<and> (\<forall>j. Suc j < m \<longrightarrow>
                  \<not> fpi_delta (fpi_sweeps L (map the prior) (length Ns))
                      (free_energy L (map the prior) (length Ns)) F0 (init_qx Ns) j < dF_tol kw)
            \<and> (int m < num_iter kw \<longrightarrow> 0 < m \<and>
                  fpi_delta (fpi_sweeps L (map the prior) (length Ns))
                    (free_energy L (map the prior) (length Ns)) F0 (init_qx Ns) (m - 1) < dF_tol kw))
       \<and> (\<exists>m. int m \<le> max 0 (num_iter kw)
            \<and> run_FPI_faster A obs prior No Ns kw =
                Inr (QAoA (snd (fpi_trace (faster_sweeps L (map the prior) (length Ns))
                     (free_energy L (map the prior) (length Ns)) F0 (init_qx Ns) m)))
            \<and> (\<forall>j. Suc j < m \<longrightarrow>
                  \<not> fpi_delta (faster_sweeps L (map the prior) (length Ns))
                      (free_energy L (map the prior) (length Ns)) F0 (init_qx Ns) j < dF_tol kw)
            \<and> (int m < num_iter kw \<longrightarrow> 0 < m \<and>
                  fpi_delta (faster_sweeps L (map the prior) (length Ns))
                    (free_energy L (map the prior) (length Ns)) F0 (init_qx Ns) (m - 1) < dF_tol kw))"
proof -
  have r: "run_FPI A obs prior No Ns kw =
      Inr (QAoA (exit_qx (fpi_loop (fpi_sweeps L (map the prior) (length Ns))
        (free_energy L (map the prior) (length Ns)) (num_iter kw) (dF_tol kw) 0 F0 (init_qx Ns))))"
    using assms by (simp add: run_FPI_unfold Let_def)
  have f: "run_FPI_faster A obs prior No Ns kw =
      Inr (QAoA (exit_qx (fpi_loop (faster_sweeps L (map the prior) (length Ns))
        (free_energy L (map the prior) (length Ns)) (num_iter kw) (dF_tol kw) 0 F0 (init_qx Ns))))"
    using assms by (simp add: run_FPI_faster_unfold Let_def)
  show ?thesis
    unfolding r f sum.inject posterior.inject
    using fpi_loop_exit0 [where S = "fpi_sweeps L (map the prior) (length Ns)"
        and E = "free_energy L (map the prior) (length Ns)" and n = "num_iter kw"
        and tol = "dF_tol kw" and F = F0 and q = "init_qx Ns"]
      fpi_loop_exit0 [where S = "faster_sweeps L (map the prior) (length Ns)"
        and E = "free_energy L (map the prior) (length Ns)" and n = "num_iter kw"
        and tol = "dF_tol kw" and F = F0 and q = "init_qx Ns"]
    by blast
qed

theorem loop_stops_within_cap_witness:
  "\<exists>L F0 m. joint_log_likelihood (Arr ex_A2) (OSingle [1, 0]) [2] [2, 2] = Inr L
     \<and> init_F_prev (init_qx [2, 2]) ex_prior2 [0..<2] 0 = Inr F0
     \<and> m \<le> 10
     \<and> run_FPI (Arr ex_A2) (OSingle [1, 0]) ex_prior2 [2] [2, 2] default_kwargs =
         Inr (QAoA (snd (fpi_trace (fpi_sweeps L (map the ex_prior2) 2)
              (free_energy L (map the ex_prior2) 2) F0 (init_qx [2, 2]) m)))"
proof -
  have len: "length [2, 2 :: nat] = 2" by simp
  obtain L where L: "joint_log_likelihood (Arr ex_A2) (OSingle [1, 0]) [2] [2, 2] = Inr L"
    using ex_joint2 by blast
  obtain F0 where F0: "init_F_prev (init_qx [2, 2]) ex_prior2 [0..<2] 0 = Inr F0"
    using ex_init2 unfolding len by blast
  have n: "(1 :: nat) < 2" by simp
  from loop_stops_within_cap [where Ns = "[2, 2]" and kw = default_kwargs, unfolded len, OF n L F0]
  obtain m where m: "int m \<le> max 0 (num_iter default_kwargs)"
    "run_FPI (Arr ex_A2) (OSingle [1, 0]) ex_prior2 [2] [2, 2] default_kwargs =
         Inr (QAoA (snd (fpi_trace (fpi_sweeps L (map the ex_prior2) 2)
              (free_energy L (map the ex_prior2) 2) F0 (init_qx [2, 2]) m)))"
    by blast
  from m(1) have "m \<le> 10" by (simp add: default_kwargs_def)
  with L F0 m(2) show ?thesis by blast
qed

subsection \<open>The beliefs stay categorical\<close>

lemma length_softmax [simp]: "length (softmax v) = length v"
  by (simp add: softmax_def Let_def)

lemma sum_list_exp_nonneg: "0 \<le> (\<Sum>x\<leftarrow>v. exp (x :: real))"
  by (induction v) simp_all

lemma sum_list_exp_pos: "v \<noteq> [] \<Longrightarrow> 0 < (\<Sum>x\<leftarrow>v. exp (x :: real))"
proof (cases v)
  case Nil
  then show "v \<noteq> [] \<Longrightarrow> ?thesis" by simp
next
  case (Cons a w)
  have "0 < exp a + (\<Sum>x\<leftarrow>w. exp x)"
    using sum_list_exp_nonneg [of w] by (simp add: add_pos_nonneg)
  with Cons show ?thesis by simp
qed

lemma sum_list_divide: "(\<Sum>x\<leftarrow>v. f x / (c :: real)) = (\<Sum>x\<leftarrow>v. f x) / c"
  by (induction v) (simp_all add: add_divide_distrib)

lemma softmax_alt: "softmax v = map (\<lambda>x. exp x / (\<Sum>y\<leftarrow>v. exp y)) v"
proof -
  define m where "m = fold max v (hd v)"
  have s: "(\<Sum>x\<leftarrow>v. exp (x - m)) = (\<Sum>x\<leftarrow>v. exp x) / exp m"
    by (simp add: exp_diff sum_list_divide)
  have "exp (x - m) / (\<Sum>y\<leftarrow>v. exp (y - m)) = exp x / (\<Sum>y\<leftarrow>v. exp y)" for x
    unfolding s by (simp add: exp_diff)
  then show ?thesis
    by (simp add: softmax_def Let_def m_def [symmetric] o_def)
qed

lemma softmax_pos: "x \<in> set (softmax v) \<Longrightarrow> 0 < x"
proof -
  assume x: "x \<in> set (softmax v)"
  then have "v \<noteq> []" by (auto simp: softmax_alt)
  then have "0 < (\<Sum>y\<leftarrow>v. exp y)" by (rule sum_list_exp_pos)
  with x show ?thesis by (auto simp: softmax_alt)
qed

lemma softmax_sum: "v \<noteq> [] \<Longrightarrow> sum_list (softmax v) = 1"
proof -
  assume "v \<noteq> []"
  then have p: "0 < (\<Sum>y\<leftarrow>v. exp y)" by (rule sum_list_exp_pos)
  have "sum_list (softmax v) = (\<Sum>x\<leftarrow>v. exp x / (\<Sum>y\<leftarrow>v. exp y))"
    by (simp add: softmax_alt o_def)
  also have "\<dots> = (\<Sum>x\<leftarrow>v. exp x) / (\<Sum>y\<leftarrow>v. exp y)"
    by (rule sum_list_divide)
  finally show ?thesis using p by simp
qed

lemma length_vadd [simp]: "length (vadd a b) = min (length a) (length b)"
  by (simp add: vadd_def)

lemma length_spm_dot_omit [simp]: "length (spm_dot_omit X x f) = shape X ! f"
  by (simp add: spm_dot_omit_def)

lemma length_sum_except [simp]: "length (sum_except T f) = shape T ! f"
  by (simp add: sum_except_def)

lemma shape_mul_axis [simp]: "shape (mul_axis X f v) = shape X"
  by (simp add: mul_axis_def)

lemma shape_fold_mul_axis [simp]:
  "shape (fold (\<lambda>f X. mul_axis X f (qx ! f)) order L) = shape L"
  by (induction order arbitrary: L) simp_all

text \<open>Replacing the belief of one factor by a softmax keeps the beliefs well-formed.\<close>

lemma beliefs_update:
  assumes "beliefs Ns qx" "f < length Ns" "length w = Ns ! f" "0 < Ns ! f"
  shows "beliefs Ns (qx[f := softmax w])"
proof -
  have "w \<noteq> []" using assms(3,4) by auto
  then have "sum_list (softmax w) = 1" by (rule softmax_sum)
  then show ?thesis
    using assms by (auto simp: beliefs_def nth_list_update softmax_pos)
qed

lemma beliefs_init_qx:
  assumes "\<forall>n\<in>set Ns. 0 < n"
  shows "beliefs Ns (init_qx Ns)"
proof -
  have "sum_list (replicate n (1 / real n)) = 1" if "0 < n" for n
    using that by (simp add: sum_list_replicate)
  then show ?thesis
    using assms by (auto simp: beliefs_def init_qx_def)
qed


lemma init_F_prev_prior:
  "init_F_prev qx prior fs F = Inr F' \<Longrightarrow> f \<in> set fs \<Longrightarrow>
     f < length prior \<and> (\<exists>p. prior ! f = Some p \<and> length p = length (qx ! f))"
  by (induction qx prior fs F rule: init_F_prev.induct)
     (auto simp: np_dot_def split: if_splits option.splits sum.splits)

lemma range_down_rev: "range_down n = rev [0..<n]"
  by (induction n) simp_all

lemma factor_order_set: "f \<in> set (factor_order Nf k) \<Longrightarrow> f < Nf"
  by (auto simp: factor_order_def range_down_rev split: if_splits)

lemma fold_preserves:
  assumes "\<And>f q. f \<in> set fs \<Longrightarrow> P q \<Longrightarrow> P (g f q)" and "P q"
  shows "P (fold g fs q)"
  using assms by (induction fs arbitrary: q) simp_all

text \<open>The priors that passed the initialisation of \<open>F_prev\<close>.\<close>

lemma beliefs_fpi_update:
  assumes "beliefs Ns qx" "f < length Ns" "shape L = Ns" "length (prior ! f) = Ns ! f"
    "0 < Ns ! f"
  shows "beliefs Ns (fpi_update L prior qx f)"
  unfolding fpi_update_def Let_def
  by (rule beliefs_update [OF assms(1,2) _ assms(5)]) (simp add: assms)

lemma beliefs_faster_update:
  assumes "beliefs Ns qx" "f < length Ns" "shape X = Ns" "length (prior ! f) = Ns ! f"
    "0 < Ns ! f"
  shows "beliefs Ns (faster_update X prior qx f)"
  unfolding faster_update_def Let_def
  by (rule beliefs_update [OF assms(1,2) _ assms(5)]) (simp add: assms)

lemma beliefs_fpi_sweeps:
  assumes "beliefs Ns qx" "shape L = Ns" "\<forall>f<length Ns. length (prior ! f) = Ns ! f \<and> 0 < Ns ! f"
  shows "beliefs Ns (fpi_sweeps L prior (length Ns) qx)"
  unfolding fpi_sweeps_def
  by (intro fold_preserves [where P = "beliefs Ns"] beliefs_fpi_update assms(1,2))
     (use assms(3) in \<open>auto dest: factor_order_set\<close>)

lemma beliefs_faster_pass:
  assumes "beliefs Ns qx" "shape L = Ns" "\<forall>f<length Ns. length (prior ! f) = Ns ! f \<and> 0 < Ns ! f"
    "set order \<subseteq> {0..<length Ns}"
  shows "beliefs Ns (faster_pass L prior order qx)"
  unfolding faster_pass_def Let_def
  by (intro fold_preserves [where P = "beliefs Ns"] beliefs_faster_update assms(1))
     (use assms(2,3,4) in auto)

lemma beliefs_faster_sweeps:
  assumes "beliefs Ns qx" "shape L = Ns" "\<forall>f<length Ns. length (prior ! f) = Ns ! f \<and> 0 < Ns ! f"
  shows "beliefs Ns (faster_sweeps L prior (length Ns) qx)"
  unfolding faster_sweeps_def
  by (intro fold_preserves [where P = "beliefs Ns"] beliefs_faster_pass assms)
     (auto dest: factor_order_set)

lemma beliefs_fpi_trace:
  assumes "\<And>q. P q \<Longrightarrow> P (S q)" and "P q"
  shows "P (snd (fpi_trace S E F q m))"
  using assms(2) by (induction m arbitrary: F q) (simp_all add: assms(1))

lemma beliefs_categorical:
  "beliefs Ns qx \<Longrightarrow> v \<in> set qx \<Longrightarrow> categorical v"
  by (force simp: beliefs_def categorical_def in_set_conv_nth)

lemma run_FPI_loop:
  assumes "length Ns \<noteq> 1"
      and "joint_log_likelihood A obs No Ns = Inr L"
      and "init_F_prev (init_qx Ns) prior [0..<length Ns] 0 = Inr F0"
  shows "run_FPI A obs prior No Ns kw =
      Inr (QAoA (exit_qx (fpi_loop (fpi_sweeps L (map the prior) (length Ns))
        (free_energy L (map the prior) (length Ns)) (num_iter kw) (dF_tol kw) 0 F0 (init_qx Ns))))"
  using assms by (simp add: run_FPI_unfold Let_def)

lemma run_FPI_faster_loop:
  assumes "length Ns \<noteq> 1"
      and "joint_log_likelihood A obs No Ns = Inr L"
      and "init_F_prev (init_qx Ns) prior [0..<length Ns] 0 = Inr F0"
  shows "run_FPI_faster A obs prior No Ns kw =
      Inr (QAoA (exit_qx (fpi_loop (faster_sweeps L (map the prior) (length Ns))
        (free_energy L (map the prior) (length Ns)) (num_iter kw) (dF_tol kw) 0 F0 (init_qx Ns))))"
  using assms by (simp add: run_FPI_faster_unfold Let_def)

lemma checked_prior:
  assumes "init_F_prev (init_qx Ns) prior [0..<length Ns] 0 = Inr F0" "\<forall>n\<in>set Ns. 0 < n"
  shows "\<forall>f<length Ns. length (map the prior ! f) = Ns ! f \<and> 0 < Ns ! f"
proof (intro allI impI)
  fix f assume f: "f < length Ns"
  then have "f \<in> set [0..<length Ns]" by simp
  from init_F_prev_prior [OF assms(1) this]
  obtain p where p: "f < length prior" "prior ! f = Some p" "length p = length (init_qx Ns ! f)"
    by blast
  have "length (init_qx Ns ! f) = Ns ! f"
    using f by (simp add: init_qx_def)
  with p f assms(2) show "length (map the prior ! f) = Ns ! f \<and> 0 < Ns ! f"
    by simp
qed

lemma single_factor_categorical:
  assumes "length Ns = 1" "shape L = Ns" "\<forall>f<length Ns. length (map the prior ! f) = Ns ! f \<and> 0 < Ns ! f"
    "prior \<noteq> []"
  shows "categorical (single_factor L prior (init_qx Ns))"
proof -
  have "length (vadd (spm_dot_omit L (init_qx Ns) 0) (the (prior ! 0))) = Ns ! 0"
    using assms by simp
  moreover have "0 < Ns ! 0" using assms by simp
  ultimately have "0 < length (vadd (spm_dot_omit L (init_qx Ns) 0) (the (prior ! 0)))"
    by (simp only:)
  then have "vadd (spm_dot_omit L (init_qx Ns) 0) (the (prior ! 0)) \<noteq> []"
    using length_greater_0_conv by blast
  then show ?thesis
    unfolding single_factor_def categorical_def
    by (auto simp: softmax_sum dest: softmax_pos less_imp_le)
qed

text \<open>
  With a likelihood and an observation without negative entries the joint likelihood
  has none, so that \<^verbatim>\<open>np.log(L + 1e-16)\<close> of line 162 is taken of positive numbers.
\<close>

lemma spm_dot_obs_nonneg:
  assumes "nonneg_array a" "\<forall>v\<in>set x. 0 \<le> v"
  shows "0 \<le> entry (spm_dot_obs a x) idx"
proof -
  have "0 \<le> entry a (k # idx) * x ! k" if "k < length x" for k
    using assms that by (simp add: nonneg_array_def)
  then show ?thesis
    by (auto simp: spm_dot_obs_def intro!: sum_list_nonneg)
qed

lemma mul_inplace_nonneg:
  assumes "mul_inplace L R = Inr L'" "\<forall>idx. 0 \<le> entry L idx" "\<forall>idx. 0 \<le> entry R idx"
  shows "0 \<le> entry L' idx"
  using assms by (auto simp: mul_inplace_def split: if_splits)

lemma mul_modalities_nonneg:
  assumes "mul_modalities A obs gs L = Inr L'" "\<forall>idx. 0 \<le> entry L idx"
    "\<forall>a\<in>set A. nonneg_array a" "\<forall>x\<in>set obs. \<forall>v\<in>set x. 0 \<le> v"
  shows "0 \<le> entry L' idx"
  using assms
proof (induction A obs gs L arbitrary: idx rule: mul_modalities.induct)
  case (1 A obs L)
  then show ?case by simp
next
  case (2 A obs g gs L)
  from "2.prems"(1) obtain L1 where g: "g < length A" "g < length obs"
    and L1: "mul_inplace L (spm_dot_obs (A ! g) (obs ! g)) = Inr L1"
    and rest: "mul_modalities A obs gs L1 = Inr L'"
    by (auto split: if_splits sum.splits)
  have "0 \<le> entry (spm_dot_obs (A ! g) (obs ! g)) j" for j
    using g "2.prems"(3,4) by (intro spm_dot_obs_nonneg) auto
  then have "\<forall>j. 0 \<le> entry L1 j"
    using mul_inplace_nonneg [OF L1] "2.prems"(2) by blast
  with "2.IH" [OF _ L1 rest] g "2.prems"(3,4) show ?case
    by simp
qed

lemma log_arguments_positive:
  assumes "joint_likelihood A obs No Ns = Inr L" "nonneg_likelihood A" "nonneg_observation obs"
  shows "0 < entry L idx + eps16"
proof -
  have ones: "\<forall>idx. 0 \<le> entry (np_ones Ns) idx"
    by (simp add: np_ones_def)
  have "0 \<le> entry L idx"
  proof (cases "length No = 1")
    case True
    with assms(1) obtain a x where "A = Arr a" "obs = OSingle x"
      and "mul_inplace (np_ones Ns) (spm_dot_obs a x) = Inr L"
      by (auto simp: joint_likelihood_def Let_def split: npval.splits observation.splits)
    with assms(2,3) ones show ?thesis
      by (intro mul_inplace_nonneg [where L = "np_ones Ns" and R = "spm_dot_obs a x"])
         (simp_all add: spm_dot_obs_nonneg)
  next
    case False
    with assms(1) obtain as xs where "A = Obj as" "obs = OMulti xs"
      and "mul_modalities as xs [0..<length No] (np_ones Ns) = Inr L"
      by (auto simp: joint_likelihood_def Let_def split: npval.splits observation.splits)
    with assms(2,3) ones show ?thesis
      by (intro mul_modalities_nonneg [where L = "np_ones Ns"]) simp_all
  qed
  then show ?thesis
    by (simp add: eps16_def add_nonneg_pos)
qed

text \<open>
  C5. Every vector of a posterior that run\_FPI or run\_FPI\_faster returns is a valid
  categorical distribution, with non-negative entries that sum to 1, whether there is
  one factor or several and whichever way the loop ended; the likelihood and the
  observation have no negative entry and every factor has at least one state.
\<close>

theorem posterior_categorical:
  assumes pos: "\<forall>n\<in>set Ns. 0 < n"
      and "nonneg_likelihood A" and "nonneg_observation obs"
  shows "(\<forall>post. run_FPI A obs prior No Ns kw = Inr post \<longrightarrow>
            (\<forall>v\<in>set (vectors post). categorical v))
       \<and> (\<forall>post. run_FPI_faster A obs prior No Ns kw = Inr post \<longrightarrow>
            (\<forall>v\<in>set (vectors post). categorical v))"
proof -
  have main: "\<forall>v\<in>set (vectors post). categorical v"
    if L: "joint_log_likelihood A obs No Ns = Inr L"
      and F0: "init_F_prev (init_qx Ns) prior [0..<length Ns] 0 = Inr F0"
      and S: "\<And>q. beliefs Ns q \<Longrightarrow> beliefs Ns (S q)"
      and post: "post = (if length Ns = 1 then QVec (single_factor L prior (init_qx Ns))
                 else QAoA (exit_qx (fpi_loop S E (num_iter kw) (dF_tol kw) 0 F0 (init_qx Ns))))"
    for L F0 S E post
  proof (cases "length Ns = 1")
    case True
    then have "0 \<in> set [0..<length Ns]" by simp
    from init_F_prev_prior [OF F0 this] have "prior \<noteq> []" by auto
    with True post show ?thesis
      using single_factor_categorical [OF True joint_log_likelihood_shape [OF L]
          checked_prior [OF F0 pos]]
      by simp
  next
    case False
    obtain m where "exit_qx (fpi_loop S E (num_iter kw) (dF_tol kw) 0 F0 (init_qx Ns)) =
        snd (fpi_trace S E F0 (init_qx Ns) m)"
      using fpi_loop_exit0 [where S = S and E = E and n = "num_iter kw" and tol = "dF_tol kw"
          and F = F0 and q = "init_qx Ns"] by blast
    moreover have "beliefs Ns (snd (fpi_trace S E F0 (init_qx Ns) m))"
      by (rule beliefs_fpi_trace [where P = "beliefs Ns"]) (simp_all add: S beliefs_init_qx pos)
    ultimately show ?thesis
      using False post by (auto dest: beliefs_categorical)
  qed
  show ?thesis
  proof (intro conjI allI impI)
    fix post assume r: "run_FPI A obs prior No Ns kw = Inr post"
    then obtain L F0 where L: "joint_log_likelihood A obs No Ns = Inr L"
      and F0: "init_F_prev (init_qx Ns) prior [0..<length Ns] 0 = Inr F0"
      by (auto simp: run_FPI_unfold Let_def split: sum.splits)
    show "\<forall>v\<in>set (vectors post). categorical v"
    proof (rule main [OF L F0])
      show "beliefs Ns (fpi_sweeps L (map the prior) (length Ns) q)" if "beliefs Ns q" for q
        using that joint_log_likelihood_shape [OF L] checked_prior [OF F0 pos]
        by (rule beliefs_fpi_sweeps)
      show "post = (if length Ns = 1 then QVec (single_factor L prior (init_qx Ns))
          else QAoA (exit_qx (fpi_loop (fpi_sweeps L (map the prior) (length Ns))
            (free_energy L (map the prior) (length Ns)) (num_iter kw) (dF_tol kw) 0 F0 (init_qx Ns))))"
        using r L F0 by (auto simp: run_FPI_unfold Let_def)
    qed
  next
    fix post assume r: "run_FPI_faster A obs prior No Ns kw = Inr post"
    then obtain L F0 where L: "joint_log_likelihood A obs No Ns = Inr L"
      and F0: "init_F_prev (init_qx Ns) prior [0..<length Ns] 0 = Inr F0"
      by (auto simp: run_FPI_faster_unfold Let_def split: sum.splits)
    show "\<forall>v\<in>set (vectors post). categorical v"
    proof (rule main [OF L F0])
      show "beliefs Ns (faster_sweeps L (map the prior) (length Ns) q)" if "beliefs Ns q" for q
        using that joint_log_likelihood_shape [OF L] checked_prior [OF F0 pos]
        by (rule beliefs_faster_sweeps)
      show "post = (if length Ns = 1 then QVec (single_factor L prior (init_qx Ns))
          else QAoA (exit_qx (fpi_loop (faster_sweeps L (map the prior) (length Ns))
            (free_energy L (map the prior) (length Ns)) (num_iter kw) (dF_tol kw) 0 F0 (init_qx Ns))))"
        using r L F0 by (auto simp: run_FPI_faster_unfold Let_def)
    qed
  qed
qed

theorem posterior_categorical_witness:
  "\<exists>post. run_FPI (Arr ex_A2) (OSingle [1, 0]) ex_prior2 [2] [2, 2] default_kwargs = Inr post
     \<and> (\<forall>v\<in>set (vectors post). categorical v)"
proof -
  have len: "length [2, 2 :: nat] = 2" by simp
  obtain L where L: "joint_log_likelihood (Arr ex_A2) (OSingle [1, 0]) [2] [2, 2] = Inr L"
    using ex_joint2 by blast
  obtain F0 where F0: "init_F_prev (init_qx [2, 2]) ex_prior2 [0..<2] 0 = Inr F0"
    using ex_init2 unfolding len by blast
  have two: "(2 :: nat) \<noteq> 1" by simp
  obtain post where post:
    "run_FPI (Arr ex_A2) (OSingle [1, 0]) ex_prior2 [2] [2, 2] default_kwargs = Inr post"
    using run_FPI_loop [where Ns = "[2, 2]", unfolded len, OF two L F0] by blast
  have pos: "\<forall>n\<in>set [2, 2 :: nat]. 0 < n" by simp
  have A: "nonneg_likelihood (Arr ex_A2)"
    by (simp add: nonneg_array_def ex_A2_def)
  have o: "nonneg_observation (OSingle [1, 0])"
    by simp
  from posterior_categorical [OF pos A o, of ex_prior2 "[2]" default_kwargs]
    post show ?thesis by blast
qed

subsection \<open>The two passes of an iteration\<close>

lemma fpi_sweeps_two_pass: "fpi_sweeps L prior Nf qx = two_pass_update L prior Nf qx"
proof -
  have "[0..<2] = [0, 1 :: nat]" by (simp add: upt_rec numeral_2_eq_2)
  then show ?thesis
    by (simp add: fpi_sweeps_def two_pass_update_def factor_order_def range_down_rev
        fpi_update_def Let_def)
qed

lemma in_indices:
  "idx \<in> set (indices Ns) \<longleftrightarrow> length idx = length Ns \<and> (\<forall>g<length Ns. idx ! g < Ns ! g)"
proof (induction Ns arbitrary: idx)
  case Nil
  then show ?case by (simp add: indices_def)
next
  case (Cons n Ns)
  have step: "indices (n # Ns) = concat (map (\<lambda>x. map (Cons x) (indices Ns)) [0..<n])"
    by (simp add: indices_def)
  show ?case
  proof (cases idx)
    case Nil
    then show ?thesis by (auto simp: step)
  next
    case (Cons i js)
    have "(\<forall>g<Suc (length Ns). (i # js) ! g < (n # Ns) ! g) \<longleftrightarrow>
        i < n \<and> (\<forall>g<length Ns. js ! g < Ns ! g)"
      by (auto simp: less_Suc_eq_0_disj)
    with Cons Cons.IH [of js] show ?thesis
      by (auto simp: step)
  qed
qed

lemma entry_mul_axis: "entry (mul_axis X f v) idx = entry X idx * v ! (idx ! f)"
  by (simp add: mul_axis_def)

lemma entry_fold_mul_axis:
  "entry (fold (\<lambda>f X. mul_axis X f (qx ! f)) order L) idx = entry L idx * weight qx order idx"
  by (induction order arbitrary: L) (simp_all add: weight_def mul_axis_def mult.assoc)

lemma weight_remove:
  assumes "distinct order" "set order = {0..<Nf}" "f < Nf"
  shows "weight x order idx = x ! f ! (idx ! f) * weight x (filter (\<lambda>g. g \<noteq> f) [0..<Nf]) idx"
proof -
  let ?h = "\<lambda>g. x ! g ! (idx ! g)"
  have "weight x order idx = prod ?h (set order)"
    unfolding weight_def using assms(1) by (simp add: prod.distinct_set_conv_list)
  also have "\<dots> = ?h f * prod ?h ({0..<Nf} - {f})"
    using assms(2,3) by (simp add: prod.remove)
  finally have a: "weight x order idx = ?h f * prod ?h ({0..<Nf} - {f})" .
  have s: "set (filter (\<lambda>g. g \<noteq> f) [0..<Nf]) = {0..<Nf} - {f}"
    by auto
  have "weight x (filter (\<lambda>g. g \<noteq> f) [0..<Nf]) idx =
      prod ?h (set (filter (\<lambda>g. g \<noteq> f) [0..<Nf]))"
    unfolding weight_def by (rule prod.distinct_set_conv_list [symmetric]) simp
  then have "weight x (filter (\<lambda>g. g \<noteq> f) [0..<Nf]) idx = prod ?h ({0..<Nf} - {f})"
    by (simp only: s)
  with a show ?thesis by simp
qed

text \<open>
  Dividing the joint tensor by the belief of \<open>f\<close> and summing over the other axes gives
  the marginal under the beliefs that were multiplied in.
\<close>

lemma sum_except_joint:
  assumes "distinct order" "set order = {0..<length q0}" "f < length q0"
    "length (shape L) = length q0" "length (q0 ! f) = shape L ! f" "\<forall>x\<in>set (q0 ! f). x \<noteq> 0"
  shows "sum_except (mul_axis (fold (\<lambda>f X. mul_axis X f (q0 ! f)) order L) f
            (map (\<lambda>x. 1 / x) (q0 ! f))) f = spm_dot_omit L q0 f"
proof -
  let ?X = "fold (\<lambda>f X. mul_axis X f (q0 ! f)) order L"
  have e: "entry (mul_axis ?X f (map (\<lambda>x. 1 / x) (q0 ! f))) idx =
      entry L idx * weight q0 (filter (\<lambda>g. g \<noteq> f) [0..<length q0]) idx"
    if "idx \<in> set (indices (shape L))" for idx
  proof -
    from that assms(3,4) have lt: "idx ! f < shape L ! f"
      by (simp add: in_indices)
    then have nz: "q0 ! f ! (idx ! f) \<noteq> 0"
      using assms(5,6) by simp
    have "entry (mul_axis ?X f (map (\<lambda>x. 1 / x) (q0 ! f))) idx =
        entry L idx * weight q0 order idx * (1 / q0 ! f ! (idx ! f))"
      using lt assms(5) by (simp add: entry_mul_axis entry_fold_mul_axis)
    also have "\<dots> = entry L idx * weight q0 (filter (\<lambda>g. g \<noteq> f) [0..<length q0]) idx"
      using nz by (simp add: weight_remove [OF assms(1,2,3)])
    finally show ?thesis .
  qed
  show ?thesis
    unfolding sum_except_def spm_dot_omit_def
    by (auto intro!: arg_cong [where f = sum_list] map_cong simp: e)
qed

lemma fold_faster_update:
  assumes "distinct fs" "\<forall>g\<in>set fs. qx ! g = q0 ! g" "length qx = length q0"
    and X: "\<And>f. f \<in> set fs \<Longrightarrow>
          sum_except (mul_axis X f (map (\<lambda>x. 1 / x) (q0 ! f))) f = spm_dot_omit L q0 f"
  shows "fold (\<lambda>f qx. faster_update X prior qx f) fs qx =
         fold (\<lambda>f qx. qx[f := softmax (vadd (spm_dot_omit L q0 f) (prior ! f))]) fs qx"
  using assms
proof (induction fs arbitrary: qx)
  case Nil
  then show ?case by simp
next
  case (Cons f fs)
  let ?q = "qx[f := softmax (vadd (spm_dot_omit L q0 f) (prior ! f))]"
  have u: "faster_update X prior qx f = ?q"
    using Cons.prems by (simp add: faster_update_def Let_def)
  have "\<forall>g\<in>set fs. g \<noteq> f"
    using Cons.prems(1) by auto
  then have "\<forall>g\<in>set fs. ?q ! g = q0 ! g"
    using Cons.prems(2) by (auto simp: nth_list_update_neq)
  then have "fold (\<lambda>f qx. faster_update X prior qx f) fs ?q =
      fold (\<lambda>f qx. qx[f := softmax (vadd (spm_dot_omit L q0 f) (prior ! f))]) fs ?q"
    using Cons.prems by (intro Cons.IH) auto
  then show ?case by (simp add: u)
qed

lemma faster_pass_frozen:
  assumes "distinct order" "set order = {0..<length q0}" "length (shape L) = length q0"
    "\<forall>f<length q0. length (q0 ! f) = shape L ! f \<and> (\<forall>x\<in>set (q0 ! f). x \<noteq> 0)"
  shows "faster_pass L prior order q0 = frozen_pass L prior order q0"
  unfolding faster_pass_def frozen_pass_def Let_def
  by (rule fold_faster_update [OF assms(1)])
     (use assms in \<open>auto intro!: sum_except_joint\<close>)

lemma faster_sweeps_frozen:
  assumes "shape L = Ns" "beliefs Ns qx" "\<forall>f<length Ns. length (prior ! f) = Ns ! f \<and> 0 < Ns ! f"
  shows "faster_sweeps L prior (length Ns) qx =
     frozen_pass L prior (rev [0..<length Ns]) (frozen_pass L prior [0..<length Ns] qx)"
proof -
  have fr: "faster_pass L prior order q = frozen_pass L prior order q"
    if "beliefs Ns q" "distinct order" "set order = {0..<length Ns}" for order q
  proof (rule faster_pass_frozen)
    show "distinct order" by (rule that(2))
    show "set order = {0..<length q}" using that(1,3) by (simp add: beliefs_def)
    show "length (shape L) = length q" using that(1) assms(1) by (simp add: beliefs_def)
    show "\<forall>f<length q. length (q ! f) = shape L ! f \<and> (\<forall>x\<in>set (q ! f). x \<noteq> 0)"
      using that(1) assms(1) by (fastforce simp: beliefs_def)
  qed
  have one: "faster_pass L prior [0..<length Ns] qx = frozen_pass L prior [0..<length Ns] qx"
    by (rule fr [OF assms(2)]) simp_all
  have "beliefs Ns (faster_pass L prior [0..<length Ns] qx)"
    by (rule beliefs_faster_pass [OF assms(2,1,3)]) simp
  then have two: "faster_pass L prior (rev [0..<length Ns]) (frozen_pass L prior [0..<length Ns] qx) =
      frozen_pass L prior (rev [0..<length Ns]) (frozen_pass L prior [0..<length Ns] qx)"
    unfolding one by (rule fr) simp_all
  have "[0..<2] = [0, 1 :: nat]" by (simp add: upt_rec numeral_2_eq_2)
  then show ?thesis
    by (simp add: faster_sweeps_def factor_order_def range_down_rev one two)
qed

text \<open>
  C1, as amended. Each iteration makes the two passes, ascending and then descending,
  and at each visited factor replaces the belief by the softmax of a marginal
  log-likelihood plus the prior. In run\_FPI the marginal is taken under the current
  beliefs of the other factors. In run\_FPI\_faster it is taken under the beliefs that
  held when the pass began.
\<close>

theorem sweeps_per_iteration:
  assumes "shape L = Ns" "beliefs Ns qx" "\<forall>f<length Ns. length (prior ! f) = Ns ! f \<and> 0 < Ns ! f"
  shows "fpi_sweeps L prior (length Ns) qx = two_pass_update L prior (length Ns) qx
       \<and> faster_sweeps L prior (length Ns) qx =
           frozen_pass L prior (rev [0..<length Ns]) (frozen_pass L prior [0..<length Ns] qx)"
  using faster_sweeps_frozen [OF assms] by (simp add: fpi_sweeps_two_pass)

lemma ex_L2_joint: "joint_log_likelihood (Arr ex_A2) (OSingle [1, 0]) [2] [2, 2] = Inr ex_L2"
  using ex_joint2 by (auto simp: ex_L2_def)

lemma shape_ex_L2: "shape ex_L2 = [2, 2]"
  by (rule joint_log_likelihood_shape [OF ex_L2_joint])

lemma len22: "length [2, 2 :: nat] = 2"
  by simp

theorem sweeps_per_iteration_witness:
  "fpi_sweeps ex_L2 [[0, 0], [0, 0]] 2 (init_qx [2, 2]) =
     two_pass_update ex_L2 [[0, 0], [0, 0]] 2 (init_qx [2, 2])
   \<and> faster_sweeps ex_L2 [[0, 0], [0, 0]] 2 (init_qx [2, 2]) =
       frozen_pass ex_L2 [[0, 0], [0, 0]] (rev [0..<2])
         (frozen_pass ex_L2 [[0, 0], [0, 0]] [0..<2] (init_qx [2, 2]))"
proof -
  have b: "beliefs [2, 2] (init_qx [2, 2])"
    by (rule beliefs_init_qx) simp
  have p: "\<forall>f<2. length ([[0, 0], [0, 0 :: real]] ! f) = [2, 2 :: nat] ! f \<and> 0 < [2, 2 :: nat] ! f"
    by (simp add: less_Suc_eq numeral_2_eq_2)
  show ?thesis
    by (rule sweeps_per_iteration [where Ns = "[2, 2]", unfolded len22, OF shape_ex_L2 b p])
qed

lemma upt_2: "[0..<2] = [0, Suc 0]"
  by (simp add: upt_rec numeral_2_eq_2)

lemma indices_22: "indices [2, 2] = [[0, 0], [0, Suc 0], [Suc 0, 0], [Suc 0, Suc 0]]"
  by (simp add: indices_def upt_2)

lemma ex_L2_entries:
  "entry ex_L2 [0, 0] = ln (9 / 10 + eps16)"
  "entry ex_L2 [0, Suc 0] = ln (1 / 10 + eps16)"
  "entry ex_L2 [Suc 0, 0] = ln (1 / 10 + eps16)"
  "entry ex_L2 [Suc 0, Suc 0] = ln (1 / 10 + eps16)"
  by (simp_all add: ex_L2_def joint_log_likelihood_def joint_likelihood_def mul_inplace_def
      spm_dot_obs_def ex_A2_def np_ones_def log_floor_def bcast_idx_def upt_2)

lemma ex_L2_marginal_0:
  "spm_dot_omit ex_L2 [q0, [s, t]] 0 =
     [ln (9 / 10 + eps16) * s + ln (1 / 10 + eps16) * t,
      ln (1 / 10 + eps16) * s + ln (1 / 10 + eps16) * t]"
  by (simp add: spm_dot_omit_def shape_ex_L2 indices_22 ex_L2_entries weight_def upt_2)

lemma ex_L2_marginal_1:
  "spm_dot_omit ex_L2 [[s, t], q1] (Suc 0) =
     [ln (9 / 10 + eps16) * s + ln (1 / 10 + eps16) * t,
      ln (1 / 10 + eps16) * s + ln (1 / 10 + eps16) * t]"
  by (simp add: spm_dot_omit_def shape_ex_L2 indices_22 ex_L2_entries weight_def upt_2)


lemma softmax_two:
  "softmax [x, y] = [1 / (1 + exp (y - x)), 1 - 1 / (1 + exp (y - x))]"
proof -
  have p: "0 < 1 + exp (y - x)"
    by (simp add: add_pos_pos)
  have e: "exp x + exp y = exp x * (1 + exp (y - x))"
    by (simp add: exp_diff algebra_simps)
  have a: "exp x / (exp x + exp y) = 1 / (1 + exp (y - x))"
    unfolding e by simp
  have "exp y / (exp x + exp y) = exp (y - x) / (1 + exp (y - x))"
    unfolding e by (simp add: exp_diff)
  also have "\<dots> = 1 - 1 / (1 + exp (y - x))"
    using p by (simp add: field_simps)
  finally show ?thesis
    using a by (simp add: softmax_alt)
qed

lemma ex_update_0:
  "softmax (vadd (spm_dot_omit ex_L2 [q0, two_point t] 0) [0, 0]) = two_point (ex_step t)"
proof -
  have "ln (1 / 10 + eps16) * t + ln (1 / 10 + eps16) * (1 - t)
      - (ln (9 / 10 + eps16) * t + ln (1 / 10 + eps16) * (1 - t))
      = - ((ln (9 / 10 + eps16) - ln (1 / 10 + eps16)) * t)"
    by (simp add: algebra_simps)
  then show ?thesis
    by (simp add: two_point_def ex_L2_marginal_0 vadd_def softmax_two ex_step_def)
qed

lemma ex_update_1:
  "softmax (vadd (spm_dot_omit ex_L2 [two_point t, q1] (Suc 0)) [0, 0]) = two_point (ex_step t)"
proof -
  have "ln (1 / 10 + eps16) * t + ln (1 / 10 + eps16) * (1 - t)
      - (ln (9 / 10 + eps16) * t + ln (1 / 10 + eps16) * (1 - t))
      = - ((ln (9 / 10 + eps16) - ln (1 / 10 + eps16)) * t)"
    by (simp add: algebra_simps)
  then show ?thesis
    by (simp add: two_point_def ex_L2_marginal_1 vadd_def softmax_two ex_step_def)
qed

lemma ex_init_qx: "init_qx [2, 2] = [two_point (1 / 2), two_point (1 / 2)]"
  by (simp add: init_qx_def two_point_def upt_2 numeral_2_eq_2)

lemma ex_two_pass:
  "two_pass_update ex_L2 [[0, 0], [0, 0]] 2 (init_qx [2, 2]) =
     [two_point (ex_step (ex_step (ex_step (1 / 2)))), two_point (ex_step (ex_step (1 / 2)))]"
  by (simp add: two_pass_update_def upt_2 ex_init_qx ex_update_0 ex_update_1)

lemma ex_faster:
  "faster_sweeps ex_L2 [[0, 0], [0, 0]] 2 (init_qx [2, 2]) =
     [two_point (ex_step (ex_step (1 / 2))), two_point (ex_step (ex_step (1 / 2)))]"
proof -
  have b: "beliefs [2, 2] (init_qx [2, 2])"
    by (rule beliefs_init_qx) simp
  have p: "\<forall>f<2. length ([[0, 0], [0, 0 :: real]] ! f) = [2, 2 :: nat] ! f \<and> 0 < [2, 2 :: nat] ! f"
    by (simp add: less_Suc_eq numeral_2_eq_2)
  show ?thesis
    unfolding faster_sweeps_frozen [where Ns = "[2, 2]", unfolded len22, OF shape_ex_L2 b p]
    by (simp add: frozen_pass_def upt_2 ex_init_qx ex_update_0 ex_update_1)
qed

lemma ex_gap: "0 < ln (9 / 10 + eps16) - ln (1 / 10 + eps16)"
proof -
  have "ln (1 / 10 + eps16) < ln (9 / 10 + eps16)"
    by (subst ln_less_cancel_iff) (simp_all add: eps16_def)
  then show ?thesis by simp
qed

lemma ex_step_mono: "s < t \<Longrightarrow> ex_step s < ex_step t"
proof -
  assume "s < t"
  then have "exp (- ((ln (9 / 10 + eps16) - ln (1 / 10 + eps16)) * t))
      < exp (- ((ln (9 / 10 + eps16) - ln (1 / 10 + eps16)) * s))"
    using ex_gap by simp
  then show ?thesis
    unfolding ex_step_def by (intro divide_strict_left_mono) (simp_all add: add_pos_pos)
qed

lemma ex_step_half: "1 / 2 < ex_step (1 / 2)"
proof -
  have "exp (- ((ln (9 / 10 + eps16) - ln (1 / 10 + eps16)) * (1 / 2))) < 1"
    using ex_gap by simp
  then have "1 + exp (- ((ln (9 / 10 + eps16) - ln (1 / 10 + eps16)) * (1 / 2))) < 2"
    by simp
  then have "1 / 2 < 1 / (1 + exp (- ((ln (9 / 10 + eps16) - ln (1 / 10 + eps16)) * (1 / 2))))"
    by (intro divide_strict_left_mono) (simp_all add: add_pos_pos)
  then show ?thesis by (simp add: ex_step_def)
qed

text \<open>
  C1, as stated, for run\_FPI\_faster: on the example with two factors one iteration
  from the uniform beliefs does not produce the beliefs of the two passes under the
  current beliefs.
\<close>

theorem faster_not_current_beliefs:
  "faster_sweeps ex_L2 [[0, 0], [0, 0]] 2 (init_qx [2, 2]) \<noteq>
     two_pass_update ex_L2 [[0, 0], [0, 0]] 2 (init_qx [2, 2])"
proof -
  have "ex_step (1 / 2) < ex_step (ex_step (1 / 2))"
    by (rule ex_step_mono [OF ex_step_half])
  then have "ex_step (ex_step (1 / 2)) < ex_step (ex_step (ex_step (1 / 2)))"
    by (rule ex_step_mono)
  then show ?thesis
    by (simp add: ex_faster ex_two_pass two_point_def)
qed

subsection \<open>The initial free energy\<close>

lemma init_F_prev_value:
  "init_F_prev qx prior fs F = Inr F' \<Longrightarrow>
     F' = fold (\<lambda>f F. F + (h_qx (qx ! f) + xh_qx_px (qx ! f) (map the prior ! f))) fs F"
  by (induction qx prior fs F rule: init_F_prev.induct)
     (auto simp: np_dot_def xh_qx_px_def split: if_splits option.splits sum.splits)

text \<open>
  The value that initialises \<open>F_prev\<close> is the free energy of lines 230 to 236 without
  its last term, the expected log-likelihood.
\<close>

lemma init_F_prev_free_energy:
  assumes "init_F_prev qx prior [0..<Nf] 0 = Inr F0"
  shows "F0 = free_energy L (map the prior) Nf qx + spm_dot_all L qx ! 0"
  using init_F_prev_value [OF assms] by (simp add: free_energy_def Let_def)

lemma ex_expected_loglik:
  "spm_dot_all ex_L2 (init_qx [2, 2]) ! 0 =
     (ln (9 / 10 + eps16) + 3 * ln (1 / 10 + eps16)) / 4"
  by (simp add: spm_dot_all_def shape_ex_L2 indices_22 ex_L2_entries weight_def upt_2
      ex_init_qx two_point_def)

lemma ex_logs_negative: "ln (9 / 10 + eps16) < 0" "ln (1 / 10 + eps16) < 0"
  by (simp_all add: eps16_def)

text \<open>
  C6. On the example with two factors the value that the code gives to F\_prev before
  the first iteration is the free energy of section 4.4 at the uniform beliefs plus the
  expected log-likelihood, which is negative there: the term is not subtracted.
\<close>

theorem initial_free_energy_without_likelihood:
  "init_F_prev (init_qx [2, 2]) ex_prior2 [0..<2] 0 =
     Inr (free_energy ex_L2 (map the ex_prior2) 2 (init_qx [2, 2])
          + spm_dot_all ex_L2 (init_qx [2, 2]) ! 0)
   \<and> spm_dot_all ex_L2 (init_qx [2, 2]) ! 0 < 0"
proof -
  obtain F0 where F0: "init_F_prev (init_qx [2, 2]) ex_prior2 [0..<2] 0 = Inr F0"
    using ex_init2 unfolding len22 by blast
  have "spm_dot_all ex_L2 (init_qx [2, 2]) ! 0 < 0"
    unfolding ex_expected_loglik using ex_logs_negative by simp
  with F0 init_F_prev_free_energy [OF F0, of ex_L2] show ?thesis
    by simp
qed

subsection \<open>What is rejected before the iteration\<close>

lemma init_F_prev_mismatch:
  assumes "\<forall>f\<in>set fs. f < length prior \<and> prior ! f \<noteq> None"
      and "\<exists>f\<in>set fs. length (the (prior ! f)) \<noteq> length (qx ! f)"
  shows "init_F_prev qx prior fs F = Inl ValueError"
  using assms
proof (induction fs arbitrary: F)
  case Nil
  then show ?case by simp
next
  case (Cons f fs)
  then obtain p where p: "f < length prior" "prior ! f = Some p"
    by auto
  show ?case
  proof (cases "length p = length (qx ! f)")
    case False
    with p show ?thesis by (simp add: np_dot_def)
  next
    case True
    with Cons.prems(2) p have "\<exists>g\<in>set fs. length (the (prior ! g)) \<noteq> length (qx ! g)"
      by auto
    with Cons.IH Cons.prems(1) have "init_F_prev qx prior fs F' = Inl ValueError" for F'
      by simp
    with p True show ?thesis by (simp add: np_dot_def)
  qed
qed

text \<open>
  C7, as amended. A prior vector whose length differs from the cardinality Ns[f] of its
  factor is rejected by both solvers with a ValueError, raised when F\_prev is
  initialised and so before any iteration, whatever num\_iter and dF\_tol are.
\<close>

theorem prior_mismatch_rejected:
  assumes "joint_log_likelihood A obs No Ns = Inr L"
      and "\<forall>f<length Ns. f < length prior \<and> prior ! f \<noteq> None"
      and "\<exists>f<length Ns. length (the (prior ! f)) \<noteq> Ns ! f"
  shows "run_FPI A obs prior No Ns kw = Inl ValueError
       \<and> run_FPI_faster A obs prior No Ns kw = Inl ValueError"
proof -
  have "init_F_prev (init_qx Ns) prior [0..<length Ns] 0 = Inl ValueError"
    using assms(2,3) by (intro init_F_prev_mismatch) (auto simp: init_qx_def)
  with assms(1) show ?thesis
    by (simp add: run_FPI_unfold run_FPI_faster_unfold)
qed

theorem prior_mismatch_rejected_witness:
  "run_FPI (Arr ex_A) (OSingle [1, 0]) [Some [0, 0, 0]] [2] [2] default_kwargs = Inl ValueError"
proof -
  have a: "\<forall>f<length [2 :: nat]. f < length [Some [0, 0, 0 :: real]] \<and> [Some [0, 0, 0 :: real]] ! f \<noteq> None"
    by simp
  have b: "\<exists>f<length [2 :: nat]. length (the ([Some [0, 0, 0 :: real]] ! f)) \<noteq> [2 :: nat] ! f"
    by simp
  from prior_mismatch_rejected [OF ex_joint a b] show ?thesis
    by simp
qed

lemma update_posterior_states_normalized:
  "fst (normalize_inputs args) = Inr canon \<Longrightarrow>
     fst (update_posterior_states args rn method kw) = dispatch run_FPI canon rn method kw"
  by (auto simp: update_posterior_states_def update_posterior_states_with_def
      split: prod.splits sum.splits)

lemma dispatch_FPI:
  "dispatch fpi (A, obs, prior, No, Ns) rn ''FPI'' kw =
     map_sum id (\<lambda>q. if rn then Numpy q else Cat q) (fpi A obs prior No Ns kw)"
  by (cases "fpi A obs prior No Ns kw") (simp_all add: dispatch_def)

lemma ex_neg_normalize:
  "fst (normalize_inputs ex_args_neg) =
     Inr (Arr ex_A_neg, OSingle [1, 0], [Some [0, 0]], [2], [2])"
  by (simp add: normalize_inputs_def ex_args_neg_def ex_A_neg_def infer_dims_def
      normalize_observation_def one_hot_def normalize_prior_def as_vec_def vec_of_def upt_2)

lemma ex_neg_joint:
  "\<exists>L. joint_log_likelihood (Arr ex_A_neg) (OSingle [1, 0]) [2] [2] = Inr L
     \<and> vec_of L = [ln (- 1 / 2 + eps16), ln (1 / 2 + eps16)]"
  by (simp add: joint_log_likelihood_def joint_likelihood_def mul_inplace_def spm_dot_obs_def
      ex_A_neg_def np_ones_def vec_of_def log_floor_def bcast_idx_def upt_2)

text \<open>
  C7, as stated: the likelihood of this call has the negative entry -0.5 and the call is
  not rejected; it returns the softmax of the logarithms, that of -0.5 + 1e-16 among
  them.
\<close>

theorem negative_likelihood_accepted:
  "fst (update_posterior_states ex_args_neg True ''FPI'' default_kwargs) =
     Inr (Numpy (QVec (softmax [ln (- 1 / 2 + eps16), ln (1 / 2 + eps16)])))"
proof -
  obtain L where L: "joint_log_likelihood (Arr ex_A_neg) (OSingle [1, 0]) [2] [2] = Inr L"
    and v: "vec_of L = [ln (- 1 / 2 + eps16), ln (1 / 2 + eps16)]"
    using ex_neg_joint by blast
  have "run_FPI (Arr ex_A_neg) (OSingle [1, 0]) [Some [0, 0]] [2] [2] default_kwargs =
      Inr (QVec (softmax (vadd (vec_of L) [0, 0])))"
    by (rule run_single_factor(1) [OF _ L]) simp_all
  then have r: "run_FPI (Arr ex_A_neg) (OSingle [1, 0]) [Some [0, 0]] [2] [2] default_kwargs =
      Inr (QVec (softmax [ln (- 1 / 2 + eps16), ln (1 / 2 + eps16)]))"
    by (simp add: v vadd_def)
  show ?thesis
    by (simp add: update_posterior_states_normalized [OF ex_neg_normalize] dispatch_FPI r)
qed

subsection \<open>The return value at the iteration cap\<close>

lemma fpi_loop_cap:
  assumes "\<forall>j. int j < n \<longrightarrow> \<not> fpi_delta S E F q j < tol"
  shows "exit_qx (fpi_loop S E n tol 0 F q) = snd (fpi_trace S E F q (nat n))"
proof -
  obtain m where m: "int m \<le> max 0 n"
    "exit_qx (fpi_loop S E n tol 0 F q) = snd (fpi_trace S E F q m)"
    "int m < n \<longrightarrow> 0 < m \<and> fpi_delta S E F q (m - 1) < tol"
    using fpi_loop_exit0 [where S = S and E = E and n = n and tol = tol and F = F and q = q]
    by blast
  have "\<not> int m < n"
  proof
    assume lt: "int m < n"
    with m(3) have "0 < m" "fpi_delta S E F q (m - 1) < tol" by simp_all
    moreover from lt have "int (m - 1) < n" by simp
    ultimately show False using assms by blast
  qed
  with m(1) have "m = nat n" by simp
  with m(2) show ?thesis by simp
qed

text \<open>
  C8, as amended. When no iteration within the cap has a change of the free energy
  below the tolerance, the solver returns the posterior after num\_iter iterations, a
  posterior and nothing else, as it does when it stops early.
\<close>

theorem cap_returns_posterior:
  assumes "length Ns \<noteq> 1"
      and "joint_log_likelihood A obs No Ns = Inr L"
      and "init_F_prev (init_qx Ns) prior [0..<length Ns] 0 = Inr F0"
  shows "((\<forall>j. int j < num_iter kw \<longrightarrow>
             \<not> fpi_delta (fpi_sweeps L (map the prior) (length Ns))
                 (free_energy L (map the prior) (length Ns)) F0 (init_qx Ns) j < dF_tol kw) \<longrightarrow>
          run_FPI A obs prior No Ns kw =
            Inr (QAoA (snd (fpi_trace (fpi_sweeps L (map the prior) (length Ns))
              (free_energy L (map the prior) (length Ns)) F0 (init_qx Ns) (nat (num_iter kw))))))
       \<and> ((\<forall>j. int j < num_iter kw \<longrightarrow>
             \<not> fpi_delta (faster_sweeps L (map the prior) (length Ns))
                 (free_energy L (map the prior) (length Ns)) F0 (init_qx Ns) j < dF_tol kw) \<longrightarrow>
          run_FPI_faster A obs prior No Ns kw =
            Inr (QAoA (snd (fpi_trace (faster_sweeps L (map the prior) (length Ns))
              (free_energy L (map the prior) (length Ns)) F0 (init_qx Ns) (nat (num_iter kw))))))"
  by (simp add: run_FPI_loop [OF assms] run_FPI_faster_loop [OF assms] fpi_loop_cap)

lemma ex_flat_joint:
  "joint_log_likelihood (Arr ex_A_flat) (OSingle [1, 0]) [2] [2, 2] = Inr ex_L_flat"
  by (simp add: ex_L_flat_def joint_log_likelihood_def joint_likelihood_def mul_inplace_def
      spm_dot_obs_def ex_A_flat_def np_ones_def)

lemma shape_ex_L_flat: "shape ex_L_flat = [2, 2]"
  by (rule joint_log_likelihood_shape [OF ex_flat_joint])

lemma ex_L_flat_entry: "entry ex_L_flat idx = ln (1 / 2 + eps16)"
  by (simp add: ex_L_flat_def joint_log_likelihood_def joint_likelihood_def mul_inplace_def
      spm_dot_obs_def ex_A_flat_def np_ones_def log_floor_def upt_2)

lemma ex_flat_marginal:
  "spm_dot_omit ex_L_flat [two_point (1 / 2), two_point (1 / 2)] f =
     (if f = 0 \<or> f = Suc 0 then [ln (1 / 2 + eps16), ln (1 / 2 + eps16)]
      else spm_dot_omit ex_L_flat [two_point (1 / 2), two_point (1 / 2)] f)"
  by (auto simp: spm_dot_omit_def shape_ex_L_flat indices_22 ex_L_flat_entry weight_def upt_2
      two_point_def)

lemma softmax_same: "softmax [x, x] = two_point (1 / 2)"
  by (simp add: softmax_two two_point_def)

lemma ex_flat_sweeps:
  "fpi_sweeps ex_L_flat [[0, 0], [0, 0]] 2 (init_qx [2, 2]) = init_qx [2, 2]"
proof -
  have 0: "softmax (vadd (spm_dot_omit ex_L_flat [two_point (1 / 2), two_point (1 / 2)] 0) [0, 0])
      = two_point (1 / 2)"
    by (subst ex_flat_marginal) (simp add: vadd_def softmax_same)
  have 1: "softmax (vadd (spm_dot_omit ex_L_flat [two_point (1 / 2), two_point (1 / 2)] (Suc 0)) [0, 0])
      = two_point (1 / 2)"
    by (subst ex_flat_marginal) (simp add: vadd_def softmax_same)
  show ?thesis
    by (simp add: fpi_sweeps_two_pass two_pass_update_def upt_2 ex_init_qx 0 1)
qed

lemma ex_flat_loglik:
  "spm_dot_all ex_L_flat (init_qx [2, 2]) ! 0 = ln (1 / 2 + eps16)"
  by (simp add: spm_dot_all_def shape_ex_L_flat indices_22 ex_L_flat_entry weight_def upt_2
      ex_init_qx two_point_def)

lemma ex_flat_gap: "\<not> \<bar>ln (1 / 2 + eps16)\<bar> < 1 / 1000"
proof -
  have "ln (1 / 2 + eps16) \<le> 1 / 2 + eps16 - 1"
    by (rule ln_le_minus_one) (simp add: eps16_def)
  also have "\<dots> < - (1 / 1000)"
    by (simp add: eps16_def)
  finally show ?thesis by simp
qed


lemma run_FPI_exit_loop:
  assumes "length Ns \<noteq> 1"
      and "joint_log_likelihood A obs No Ns = Inr L"
      and "init_F_prev (init_qx Ns) prior [0..<length Ns] 0 = Inr F0"
  shows "run_FPI_exit A obs prior No Ns kw =
      Inr (Loop (fpi_loop (fpi_sweeps L (map the prior) (length Ns))
        (free_energy L (map the prior) (length Ns)) (num_iter kw) (dF_tol kw) 0 F0 (init_qx Ns)))"
  using assms by (simp add: run_FPI_exit_def Let_def)

lemma ex_flat_loops:
  assumes "init_F_prev (init_qx [2, 2]) ex_prior2 [0..<2] 0 = Inr F0"
  shows "fpi_loop (fpi_sweeps ex_L_flat (map the ex_prior2) 2)
           (free_energy ex_L_flat (map the ex_prior2) 2) 1 (1 / 1000) 0 F0 (init_qx [2, 2]) =
         \<lparr>exit_qx = init_qx [2, 2], exit_iter = 1, exit_break = False\<rparr>"
    and "fpi_loop (fpi_sweeps ex_L_flat (map the ex_prior2) 2)
           (free_energy ex_L_flat (map the ex_prior2) 2) 10 (1 / 1000) 0 F0 (init_qx [2, 2]) =
         \<lparr>exit_qx = init_qx [2, 2], exit_iter = 1, exit_break = True\<rparr>"
    and "\<not> fpi_delta (fpi_sweeps ex_L_flat (map the ex_prior2) 2)
           (free_energy ex_L_flat (map the ex_prior2) 2) F0 (init_qx [2, 2]) 0 < 1 / 1000"
proof -
  let ?S = "fpi_sweeps ex_L_flat (map the ex_prior2) 2"
  let ?E = "free_energy ex_L_flat (map the ex_prior2) 2"
  let ?u = "init_qx [2, 2]"
  have S: "?S ?u = ?u"
    using ex_flat_sweeps by (simp add: ex_prior2_def)
  have "F0 = ?E ?u + spm_dot_all ex_L_flat ?u ! 0"
    by (rule init_F_prev_free_energy [OF assms])
  then have d: "F0 - ?E ?u = ln (1 / 2 + eps16)"
    by (simp add: ex_flat_loglik)
  have far: "\<not> \<bar>F0 - ?E ?u\<bar> < 1 / 1000"
    unfolding d by (rule ex_flat_gap)
  have one: "fpi_loop ?S ?E 1 (1 / 1000) 1 (?E ?u) ?u =
      \<lparr>exit_qx = ?u, exit_iter = 1, exit_break = False\<rparr>"
    by (simp add: fpi_loop.simps [of ?S ?E 1 "1 / 1000" 1])
  have ten: "fpi_loop ?S ?E 10 (1 / 1000) 1 (?E ?u) ?u =
      \<lparr>exit_qx = ?u, exit_iter = 1, exit_break = True\<rparr>"
    by (simp add: fpi_loop.simps [of ?S ?E 10 "1 / 1000" 1] S Let_def)
  show "fpi_loop ?S ?E 1 (1 / 1000) 0 F0 ?u = \<lparr>exit_qx = ?u, exit_iter = 1, exit_break = False\<rparr>"
    using far one by (simp add: fpi_loop.simps [of ?S ?E 1 "1 / 1000" 0] S Let_def)
  show "fpi_loop ?S ?E 10 (1 / 1000) 0 F0 ?u = \<lparr>exit_qx = ?u, exit_iter = 1, exit_break = True\<rparr>"
    using far ten by (simp add: fpi_loop.simps [of ?S ?E 10 "1 / 1000" 0] S Let_def)
  show "\<not> fpi_delta ?S ?E F0 ?u 0 < 1 / 1000"
    using far by (simp add: fpi_delta_0 S)
qed

theorem cap_returns_posterior_witness:
  "run_FPI (Arr ex_A_flat) (OSingle [1, 0]) ex_prior2 [2] [2, 2] ex_kw_one =
     Inr (QAoA (init_qx [2, 2]))"
proof -
  obtain F0 where F0: "init_F_prev (init_qx [2, 2]) ex_prior2 [0..<2] 0 = Inr F0"
    using ex_init2 unfolding len22 by blast
  have two: "(2 :: nat) \<noteq> 1" by simp
  have never: "\<forall>j. int j < num_iter ex_kw_one \<longrightarrow>
      \<not> fpi_delta (fpi_sweeps ex_L_flat (map the ex_prior2) 2)
          (free_energy ex_L_flat (map the ex_prior2) 2) F0 (init_qx [2, 2]) j < dF_tol ex_kw_one"
    using ex_flat_loops(3) [OF F0] by (simp add: ex_kw_one_def)
  have S: "fpi_sweeps ex_L_flat (map the ex_prior2) 2 (init_qx [2, 2]) = init_qx [2, 2]"
    using ex_flat_sweeps by (simp add: ex_prior2_def)
  from cap_returns_posterior [where Ns = "[2, 2]" and kw = ex_kw_one, unfolded len22,
      OF two ex_flat_joint F0] never
  show ?thesis
    by (simp add: ex_kw_one_def S)
qed

text \<open>
  C8, as stated: the same call with num\_iter = 1 and with the default num\_iter = 10
  leaves the loop at the cap in the first case and by break in the second, and
  returns the same value in both.
\<close>

theorem exits_not_distinguished:
  "run_FPI_exit (Arr ex_A_flat) (OSingle [1, 0]) ex_prior2 [2] [2, 2] ex_kw_one =
     Inr (Loop \<lparr>exit_qx = init_qx [2, 2], exit_iter = 1, exit_break = False\<rparr>)
   \<and> run_FPI_exit (Arr ex_A_flat) (OSingle [1, 0]) ex_prior2 [2] [2, 2] default_kwargs =
     Inr (Loop \<lparr>exit_qx = init_qx [2, 2], exit_iter = 1, exit_break = True\<rparr>)
   \<and> run_FPI (Arr ex_A_flat) (OSingle [1, 0]) ex_prior2 [2] [2, 2] ex_kw_one =
     run_FPI (Arr ex_A_flat) (OSingle [1, 0]) ex_prior2 [2] [2, 2] default_kwargs"
proof -
  obtain F0 where F0: "init_F_prev (init_qx [2, 2]) ex_prior2 [0..<2] 0 = Inr F0"
    using ex_init2 unfolding len22 by blast
  have two: "(2 :: nat) \<noteq> 1" by simp
  note e = run_FPI_exit_loop [where Ns = "[2, 2]", unfolded len22, OF two ex_flat_joint F0]
  have a: "run_FPI_exit (Arr ex_A_flat) (OSingle [1, 0]) ex_prior2 [2] [2, 2] ex_kw_one =
     Inr (Loop \<lparr>exit_qx = init_qx [2, 2], exit_iter = 1, exit_break = False\<rparr>)"
    using e [of ex_kw_one] ex_flat_loops(1) [OF F0] by (simp add: ex_kw_one_def)
  have b: "run_FPI_exit (Arr ex_A_flat) (OSingle [1, 0]) ex_prior2 [2] [2, 2] default_kwargs =
     Inr (Loop \<lparr>exit_qx = init_qx [2, 2], exit_iter = 1, exit_break = True\<rparr>)"
    using e [of default_kwargs] ex_flat_loops(2) [OF F0] by (simp add: default_kwargs_def)
  show ?thesis
    by (simp add: a b run_FPI_def)
qed

subsection \<open>The caller's arguments after a call\<close>

lemma shape_squeeze_ex_col: "shape (squeeze ex_col) = [2]"
  by (simp add: squeeze_def ex_col_def)

lemma vec_of_squeeze_ex_col: "vec_of (squeeze ex_col) = [1, 0]"
  by (simp add: vec_of_def squeeze_def ex_col_def upt_2)

lemma vec_of_zero2: "vec_of \<lparr>shape = [2], entry = (\<lambda>_. 0)\<rparr> = [0, 0]"
  by (simp add: vec_of_def upt_2)

lemma ex_cat_normalize:
  "normalize_inputs ex_args_cat =
     (Inr (Obj [ex_A, ex_A], OMulti [[1, 0], [1, 0]], [Some [0, 0]], [2, 2], [2]),
      ex_args_cat\<lparr>arg_observation := Categorical (Obj [squeeze ex_col, squeeze ex_col])\<rparr>)"
  by (simp add: normalize_inputs_def ex_args_cat_def infer_dims_def ex_A_def
      normalize_observation_def upt_2 as_vec_def shape_squeeze_ex_col vec_of_squeeze_ex_col
      normalize_prior_def vec_of_zero2)

lemma ex_cat_joint:
  "\<exists>L. joint_log_likelihood (Obj [ex_A, ex_A]) (OMulti [[1, 0], [1, 0]]) [2, 2] [2] = Inr L"
  by (simp add: joint_log_likelihood_def joint_likelihood_def mul_inplace_def spm_dot_obs_def
      ex_A_def np_ones_def upt_2)

text \<open>
  C9. The call with a Categorical observation of two modalities returns a posterior, and
  when it returns the array that the caller's Categorical holds has other entries than
  before: vectors of shape (2,) in the place of the columns of shape (2, 1).
\<close>

theorem observation_values_replaced:
  "\<not> isl (fst (update_posterior_states ex_args_cat True ''FPI'' default_kwargs))
   \<and> arg_observation (snd (update_posterior_states ex_args_cat True ''FPI'' default_kwargs)) =
       Categorical (Obj [squeeze ex_col, squeeze ex_col])
   \<and> arg_observation ex_args_cat = Categorical (Obj [ex_col, ex_col])
   \<and> shape (squeeze ex_col) = [2] \<and> shape ex_col = [2, 1]"
proof -
  obtain L where L: "joint_log_likelihood (Obj [ex_A, ex_A]) (OMulti [[1, 0], [1, 0]]) [2, 2] [2] = Inr L"
    using ex_cat_joint by blast
  have "run_FPI (Obj [ex_A, ex_A]) (OMulti [[1, 0], [1, 0]]) [Some [0, 0]] [2, 2] [2] default_kwargs =
      Inr (QVec (softmax (vadd (vec_of L) [0, 0])))"
    by (rule run_single_factor(1) [OF _ L]) simp_all
  then show ?thesis
    by (simp add: update_posterior_states_def update_posterior_states_with_def ex_cat_normalize
        dispatch_FPI shape_squeeze_ex_col)
       (simp add: ex_args_cat_def ex_col_def)
qed

subsection \<open>The beliefs during a run\<close>

text \<open>
  After any number of iterations of either solver the beliefs are well-formed: the
  passes of \<^verbatim>\<open>run_FPI_faster\<close> never divide by zero.
\<close>

lemma beliefs_during_run:
  assumes "\<forall>n\<in>set Ns. 0 < n"
      and "joint_log_likelihood A obs No Ns = Inr L"
      and "init_F_prev (init_qx Ns) prior [0..<length Ns] 0 = Inr F0"
  shows "beliefs Ns (snd (fpi_trace (fpi_sweeps L (map the prior) (length Ns)) E F0 (init_qx Ns) m))"
    and "beliefs Ns (snd (fpi_trace (faster_sweeps L (map the prior) (length Ns)) E F0 (init_qx Ns) m))"
proof -
  note sh = joint_log_likelihood_shape [OF assms(2)]
  note pr = checked_prior [OF assms(3,1)]
  show "beliefs Ns (snd (fpi_trace (fpi_sweeps L (map the prior) (length Ns)) E F0 (init_qx Ns) m))"
    by (rule beliefs_fpi_trace [where P = "beliefs Ns"])
       (simp_all add: beliefs_fpi_sweeps [OF _ sh pr] beliefs_init_qx assms(1))
  show "beliefs Ns (snd (fpi_trace (faster_sweeps L (map the prior) (length Ns)) E F0 (init_qx Ns) m))"
    by (rule beliefs_fpi_trace [where P = "beliefs Ns"])
       (simp_all add: beliefs_faster_sweeps [OF _ sh pr] beliefs_init_qx assms(1))
qed

end
